theory Spec2Isabelle
  imports Complex_Main
begin

section \<open>Conventions\<close>

text \<open>
  The repository is a Next.js download service written in TypeScript. Its numbers are
  byte counts, part indices, request counts and millisecond timestamps; they are modelled as
  \<^typ>\<open>int\<close>, which agrees with JavaScript's doubles on integers below \<open>2^53\<close>.
  \<open>Math.ceil(a / b)\<close> on such integers with \<open>b > 0\<close> is the integer ceiling of the
  quotient. Strings are \<^typ>\<open>string\<close>, payloads are lists of byte values.
\<close>

type_synonym bytes = "nat list"

definition ceil_div :: "int \<Rightarrow> int \<Rightarrow> int" where
  "ceil_div a b = - ((- a) div b)"

section \<open>fileSplitter.ts: the part planner\<close>

text \<open>\<^verbatim>\<open>const MAX_PART_SIZE = 5 * 1024 * 1024 * 1024; // 5GB in bytes\<close>\<close>

definition MAX_PART_SIZE :: int where
  "MAX_PART_SIZE = 5 * 1024 * 1024 * 1024"

text \<open>\<^verbatim>\<open>interface FilePart { url; partNumber; size; totalParts }\<close>\<close>

record FilePart =
  fp_url :: string
  fp_partNumber :: int
  fp_size :: int
  fp_totalParts :: int

text \<open>
  The \<^verbatim>\<open>for (let i = 1; i <= totalParts; i++)\<close> loop of \<^verbatim>\<open>splitFile\<close>, with the
  list \<^verbatim>\<open>parts\<close> as accumulator. The part size limit is a parameter of the loop here;
  \<^verbatim>\<open>splitFile\<close> itself runs it with the module constant.
\<close>

function splitFile_loop :: "int \<Rightarrow> int \<Rightarrow> int \<Rightarrow> int \<Rightarrow> FilePart list \<Rightarrow> FilePart list" where
  "splitFile_loop maxPart fileSize totalParts i parts =
     (if i \<le> totalParts then
        (let start = (i - 1) * maxPart;
             endpos = min (start + maxPart) fileSize
         in splitFile_loop maxPart fileSize totalParts (i + 1)
              (parts @ [\<lparr>fp_url = '''', fp_partNumber = i, fp_size = endpos - start,
                         fp_totalParts = totalParts\<rparr>]))
      else parts)"
  by pat_completeness auto
termination
  by (relation "measure (\<lambda>(maxPart, fileSize, totalParts, i, parts). nat (totalParts + 1 - i))") auto

declare splitFile_loop.simps [simp del]

text \<open>
  \<^verbatim>\<open>splitFile\<close> with \<^verbatim>\<open>MAX_PART_SIZE\<close> abstracted to a positive parameter. For a
  parameter that is not positive the JavaScript division differs from \<open>div\<close>, so the
  definition is used with positive \<open>maxPart\<close> only.
\<close>

definition splitFileWith :: "int \<Rightarrow> int \<Rightarrow> FilePart list" where
  "splitFileWith maxPart fileSize =
     (let totalParts = ceil_div fileSize maxPart
      in splitFile_loop maxPart fileSize totalParts 1 [])"

definition splitFile :: "int \<Rightarrow> FilePart list" where
  "splitFile fileSize = splitFileWith MAX_PART_SIZE fileSize"

text \<open>
  \<^verbatim>\<open>splitFile\<close> has no \<^verbatim>\<open>throw\<close> statement and its loop terminates, so every call
  returns its list. The outcome of a call, with the error the planner could raise as the
  left summand:
\<close>

datatype planner_error = InvalidInputError

definition splitFile_outcome :: "int \<Rightarrow> planner_error + FilePart list" where
  "splitFile_outcome fileSize = Inr (splitFile fileSize)"

text \<open>
  The byte range of a part, as \<^verbatim>\<open>downloadPart\<close> computes it for the \<^verbatim>\<open>Range\<close>
  header: \<^verbatim>\<open>start = (part.partNumber - 1) * MAX_PART_SIZE\<close>,
  \<^verbatim>\<open>end = start + part.size - 1\<close>, both inclusive.
\<close>

definition rangeStart :: "int \<Rightarrow> FilePart \<Rightarrow> int" where
  "rangeStart maxPart part = (fp_partNumber part - 1) * maxPart"

definition rangeEnd :: "int \<Rightarrow> FilePart \<Rightarrow> int" where
  "rangeEnd maxPart part = rangeStart maxPart part + fp_size part - 1"

definition byteRange :: "int \<Rightarrow> FilePart \<Rightarrow> int set" where
  "byteRange maxPart part = {rangeStart maxPart part .. rangeEnd maxPart part}"

section \<open>The key-value store with expiry\<close>

text \<open>
  Both \<^verbatim>\<open>route.ts\<close> and \<^verbatim>\<open>fileSplitter.ts\<close> talk to one Redis server. The keys
  they use carry four distinct prefixes (\<^verbatim>\<open>rate_limit:\<close>, \<^verbatim>\<open>file_info:\<close>,
  \<^verbatim>\<open>file_size:\<close>, \<^verbatim>\<open>file_part:\<close>), so the keyspace is modelled as four maps, one
  per prefix, keyed by what follows the prefix. An entry is a value with an optional
  expiry time in milliseconds; an entry whose expiry time has been reached is absent for
  every command. Time is a parameter \<open>now\<close> of every operation.
\<close>

type_synonym 'v entry = "'v \<times> int option"

definition live :: "int \<Rightarrow> 'v entry \<Rightarrow> bool" where
  "live now e = (case snd e of None \<Rightarrow> True | Some t \<Rightarrow> now < t)"

text \<open>\<^verbatim>\<open>GET key\<close>\<close>

definition redis_get :: "int \<Rightarrow> ('k \<rightharpoonup> 'v entry) \<Rightarrow> 'k \<Rightarrow> 'v option" where
  "redis_get now store key =
     (case store key of
        None \<Rightarrow> None
      | Some e \<Rightarrow> if live now e then Some (fst e) else None)"

text \<open>\<^verbatim>\<open>SETEX key seconds value\<close>\<close>

definition redis_setex :: "int \<Rightarrow> ('k \<rightharpoonup> 'v entry) \<Rightarrow> 'k \<Rightarrow> int \<Rightarrow> 'v \<Rightarrow> ('k \<rightharpoonup> 'v entry)" where
  "redis_setex now store key seconds v = store(key \<mapsto> (v, Some (now + seconds * 1000)))"

text \<open>
  \<^verbatim>\<open>INCR key\<close>: a missing (or expired) key counts as 0 and is created without expiry;
  a live key keeps its expiry.
\<close>

definition redis_incr :: "int \<Rightarrow> ('k \<rightharpoonup> int entry) \<Rightarrow> 'k \<Rightarrow> int \<times> ('k \<rightharpoonup> int entry)" where
  "redis_incr now store key =
     (case store key of
        None \<Rightarrow> (1, store(key \<mapsto> (1, None)))
      | Some e \<Rightarrow>
          if live now e then (fst e + 1, store(key \<mapsto> (fst e + 1, snd e)))
          else (1, store(key \<mapsto> (1, None))))"

text \<open>\<^verbatim>\<open>EXPIRE key seconds\<close>: sets the expiry of a live key, does nothing otherwise.\<close>

definition redis_expire :: "int \<Rightarrow> ('k \<rightharpoonup> 'v entry) \<Rightarrow> 'k \<Rightarrow> int \<Rightarrow> ('k \<rightharpoonup> 'v entry)" where
  "redis_expire now store key seconds =
     (case store key of
        None \<Rightarrow> store
      | Some e \<Rightarrow>
          if live now e then store(key \<mapsto> (fst e, Some (now + seconds * 1000)))
          else store)"

section \<open>adTracker.ts: the unlock token store\<close>

record AdUnlock =
  au_sessionId :: string
  au_url :: string
  au_unlockedAt :: int
  au_expiresAt :: int

text \<open>
  The table \<^verbatim>\<open>AdUnlock\<close> of \<^verbatim>\<open>schema.prisma\<close> is unique on
  \<^verbatim>\<open>[sessionId, url]\<close>: a map from the pair to its row.
\<close>

type_synonym adUnlock_table = "(string \<times> string) \<rightharpoonup> AdUnlock"

definition UNLOCK_DURATION :: int where
  "UNLOCK_DURATION = 3600000"

definition MIN_WATCH_TIME :: int where
  "MIN_WATCH_TIME = 5000"

text \<open>
  \<^verbatim>\<open>findFirst({ where: { sessionId, url, expiresAt: { gt: new Date() } } })\<close>, then
  \<^verbatim>\<open>return !!unlock\<close>.
\<close>

definition isUnlocked :: "adUnlock_table \<Rightarrow> int \<Rightarrow> string \<Rightarrow> string \<Rightarrow> bool" where
  "isUnlocked tbl now sessionId url =
     (case tbl (sessionId, url) of
        None \<Rightarrow> False
      | Some unlock \<Rightarrow> au_expiresAt unlock > now)"

definition trackAdWatch ::
  "adUnlock_table \<Rightarrow> int \<Rightarrow> string \<Rightarrow> string \<Rightarrow> int \<Rightarrow> bool \<times> adUnlock_table" where
  "trackAdWatch tbl now sessionId url watchTime =
     (if watchTime < MIN_WATCH_TIME then (False, tbl)
      else
        (let expiresAt = now + UNLOCK_DURATION
         in (True,
             tbl((sessionId, url) \<mapsto>
               \<lparr>au_sessionId = sessionId, au_url = url, au_unlockedAt = now,
                au_expiresAt = expiresAt\<rparr>))))"

section \<open>contentDetector.ts\<close>

datatype ContentType = CT_file | CT_video | CT_audio | CT_image | CT_torrent

record ContentInfo =
  ci_type :: ContentType
  ci_size :: int
  ci_isLargeFile :: bool

section \<open>rateLimiter.ts: the sliding-window session quota\<close>

text \<open>
  A row of the table \<^verbatim>\<open>DownloadHistory\<close> of \<^verbatim>\<open>schema.prisma\<close> (the generated
  \<^verbatim>\<open>id\<close> is left out); the column \<^verbatim>\<open>type\<close> is a \<^verbatim>\<open>String\<close>.
\<close>

record DownloadHistory =
  dh_sessionId :: string
  dh_url :: string
  dh_type :: string
  dh_mode :: string
  dh_timestamp :: int

record RateLimitConfig =
  maxDownloads :: int
  windowMs :: int

definition defaultConfig :: RateLimitConfig where
  "defaultConfig = \<lparr>maxDownloads = 3, windowMs = 3600000\<rparr>"

record limit_result =
  allowed :: bool
  remaining :: int

text \<open>
  \<^verbatim>\<open>prisma.downloadHistory.count({ where: { sessionId, timestamp: { gte: windowStart,
  lte: now } } })\<close>
\<close>

definition downloadCount :: "DownloadHistory list \<Rightarrow> string \<Rightarrow> int \<Rightarrow> int \<Rightarrow> int" where
  "downloadCount tbl sessionId windowStart now =
     int (length (filter (\<lambda>r. dh_sessionId r = sessionId
                              \<and> windowStart \<le> dh_timestamp r \<and> dh_timestamp r \<le> now) tbl))"

definition checkLimit :: "RateLimitConfig \<Rightarrow> DownloadHistory list \<Rightarrow> int \<Rightarrow> string \<Rightarrow> limit_result" where
  "checkLimit config tbl now sessionId =
     (let windowStart = now - windowMs config;
          cnt = downloadCount tbl sessionId windowStart now;
          left = max 0 (maxDownloads config - cnt)
      in \<lparr>allowed = left > 0, remaining = left\<rparr>)"

text \<open>
  \<^verbatim>\<open>recordDownload(sessionId: string, url: string, type: string)\<close>, called with the
  strings its signature asks for.
\<close>

definition rateLimiter_recordDownload ::
  "DownloadHistory list \<Rightarrow> int \<Rightarrow> string \<Rightarrow> string \<Rightarrow> string \<Rightarrow> DownloadHistory list" where
  "rateLimiter_recordDownload tbl now sessionId url type =
     tbl @ [\<lparr>dh_sessionId = sessionId, dh_url = url, dh_type = type, dh_mode = ''history'',
             dh_timestamp = now\<rparr>]"

section \<open>downloadLimiter.ts\<close>

record UserDownloads =
  ud_userId :: string
  ud_url :: string
  ud_createdAt :: int
  ud_type :: string
  ud_partNumber :: "int option"

datatype jsnum = Fin int | Infinity

text \<open>\<^verbatim>\<open>// Always allow downloads\<close>\<close>

definition checkDownloadLimit :: "string \<Rightarrow> bool \<times> jsnum" where
  "checkDownloadLimit userId = (True, Infinity)"

definition downloadLimiter_recordDownload ::
  "UserDownloads list \<Rightarrow> int \<Rightarrow> string \<Rightarrow> string \<Rightarrow> string \<Rightarrow> int option \<Rightarrow> UserDownloads list" where
  "downloadLimiter_recordDownload tbl now userId url type partNumber =
     tbl @ [\<lparr>ud_userId = userId, ud_url = url, ud_createdAt = now, ud_type = type,
             ud_partNumber = partNumber\<rparr>]"

section \<open>The network and the server state\<close>

text \<open>
  The requests the service sends with axios: \<^verbatim>\<open>axios.head(url)\<close>, the whole-resource
  \<^verbatim>\<open>axios.get(url)\<close> of the handler (the flag says whether the pacing callback of the
  slow mode is installed), the sample \<^verbatim>\<open>axios.get\<close> of the classifier and the range
  request of \<^verbatim>\<open>downloadPart\<close> with the first and last byte of its \<^verbatim>\<open>Range\<close> header.
\<close>

datatype net_call =
    Head string
  | Get string bool
  | GetSample string
  | GetRange string int int bool

text \<open>
  A response carries the two headers the code reads and the body. A header that is not
  sent is \<open>None\<close>; a \<^verbatim>\<open>content-length\<close> that is sent is a decimal number.
\<close>

record http_response =
  content_type :: "string option"
  content_length :: "int option"
  data :: bytes

datatype net_error = NetworkError

text \<open>
  The network is a parameter: it answers the \<open>n\<close>-th request the server has made, by a
  response or by an error (timeout, non-2xx status, connection failure), which axios
  throws.
\<close>

type_synonym network = "nat \<Rightarrow> net_call \<Rightarrow> net_error + http_response"

text \<open>
  What the handler stores under \<^verbatim>\<open>file_info:\<close> and sends as JSON: the torrent
  descriptor (url, mode, sessionId, timestamp), the large-file descriptor (url, totalSize,
  suggestedPartSize, totalParts) and the file descriptor (url, contentType, size).
\<close>

datatype file_info =
    TorrentInfo string string string int
  | LargeFileInfo string int int int
  | FileInfo string "string option" int

record state =
  rate_limit :: "string \<rightharpoonup> int entry"
  file_info_cache :: "string \<rightharpoonup> file_info entry"
  file_size_cache :: "string \<rightharpoonup> (int option) entry"
  file_part_cache :: "string \<rightharpoonup> bytes entry"
  adUnlock :: adUnlock_table
  downloadHistory :: "DownloadHistory list"
  userDownloads :: "UserDownloads list"
  netlog :: "net_call list"

text \<open>Sending a request: the network answers, and the request is appended to the log.\<close>

definition http :: "network \<Rightarrow> net_call \<Rightarrow> state \<Rightarrow> (net_error + http_response) \<times> state" where
  "http net call s = (net (length (netlog s)) call, s\<lparr>netlog := netlog s @ [call]\<rparr>)"

section \<open>contentDetector.ts: detectContentType\<close>

definition startsWith :: "string \<Rightarrow> string \<Rightarrow> bool" where
  "startsWith str p = (take (length p) str = p)"

definition endsWith :: "string \<Rightarrow> string \<Rightarrow> bool" where
  "endsWith str p = (length p \<le> length str \<and> drop (length str - length p) str = p)"

definition str_includes :: "string \<Rightarrow> string \<Rightarrow> bool" where
  "str_includes str p = list_ex (\<lambda>i. startsWith (drop i str) p) [0..<Suc (length str)]"

text \<open>\<^verbatim>\<open>contentType?.includes(p)\<close>: \<^verbatim>\<open>undefined\<close>, which is falsy, without the header.\<close>

definition includes_opt :: "string option \<Rightarrow> string \<Rightarrow> bool" where
  "includes_opt contentType p = (case contentType of None \<Rightarrow> False | Some c \<Rightarrow> str_includes c p)"

text \<open>\<^verbatim>\<open>byte.toString(16).padStart(2, '0')\<close> for a byte, and the joined string.\<close>

definition hexDigit :: "nat \<Rightarrow> char" where
  "hexDigit d = ''0123456789abcdef'' ! (d mod 16)"

definition hexByte :: "nat \<Rightarrow> string" where
  "hexByte b = [hexDigit (b div 16), hexDigit b]"

definition hexString :: "bytes \<Rightarrow> string" where
  "hexString bs = concat (map hexByte bs)"

text \<open>\<^verbatim>\<open>const isLargeFile = contentLength >= 5 * 1024 * 1024 * 1024;\<close>\<close>

definition isLargeFile_of :: "int \<Rightarrow> bool" where
  "isLargeFile_of contentLength = (contentLength \<ge> 5 * 1024 * 1024 * 1024)"

text \<open>The value returned by the \<^verbatim>\<open>catch\<close> block.\<close>

definition detect_fallback :: ContentInfo where
  "detect_fallback = \<lparr>ci_type = CT_file, ci_size = 0, ci_isLargeFile = False\<rparr>"

definition detectContentType :: "network \<Rightarrow> string \<Rightarrow> state \<Rightarrow> ContentInfo \<times> state" where
  "detectContentType net url s =
     (if endsWith url ''.torrent'' \<or> startsWith url ''magnet:?'' then
        (\<lparr>ci_type = CT_torrent, ci_size = 0, ci_isLargeFile = False\<rparr>, s)
      else
        (case http net (Head url) s of
           (Inl e, s1) \<Rightarrow> (detect_fallback, s1)
         | (Inr response, s1) \<Rightarrow>
             (let contentType = content_type response;
                  contentLength = (case content_length response of None \<Rightarrow> 0 | Some n \<Rightarrow> n);
                  isLargeFile = isLargeFile_of contentLength
              in if includes_opt contentType ''video/'' then
                   (\<lparr>ci_type = CT_video, ci_size = contentLength, ci_isLargeFile = isLargeFile\<rparr>, s1)
                 else if includes_opt contentType ''audio/'' then
                   (\<lparr>ci_type = CT_audio, ci_size = contentLength, ci_isLargeFile = isLargeFile\<rparr>, s1)
                 else if includes_opt contentType ''image/'' then
                   (\<lparr>ci_type = CT_image, ci_size = contentLength, ci_isLargeFile = isLargeFile\<rparr>, s1)
                 else
                   (case http net (GetSample url) s1 of
                      (Inl e, s2) \<Rightarrow> (detect_fallback, s2)
                    | (Inr sampleResponse, s2) \<Rightarrow>
                        (let magicNumber = hexString (take 8 (data sampleResponse))
                         in if magicNumber = ''64383a616e6e6f756e6365'' then
                              (\<lparr>ci_type = CT_torrent, ci_size = contentLength,
                                ci_isLargeFile = isLargeFile\<rparr>, s2)
                            else
                              (\<lparr>ci_type = CT_file, ci_size = contentLength,
                                ci_isLargeFile = isLargeFile\<rparr>, s2))))))"

section \<open>fileSplitter.ts: getFileSize and downloadPart, one call at a time\<close>

text \<open>
  \<^verbatim>\<open>parseInt(response.headers['content-length'], 10)\<close> is \<^verbatim>\<open>NaN\<close> without the
  header. A size is an \<^typ>\<open>int option\<close> with \<open>None\<close> for \<^verbatim>\<open>NaN\<close>; the cached string
  \<^verbatim>\<open>"NaN"\<close> is truthy and parses to \<^verbatim>\<open>NaN\<close> again.
\<close>

definition getFileSize :: "network \<Rightarrow> int \<Rightarrow> string \<Rightarrow> state \<Rightarrow> (net_error + int option) \<times> state" where
  "getFileSize net now url s =
     (case redis_get now (file_size_cache s) url of
        Some cachedSize \<Rightarrow> (Inr cachedSize, s)
      | None \<Rightarrow>
          (case http net (Head url) s of
             (Inl e, s1) \<Rightarrow> (Inl e, s1)
           | (Inr response, s1) \<Rightarrow>
               (let sz = content_length response
                in (Inr sz,
                    s1\<lparr>file_size_cache := redis_setex now (file_size_cache s1) url 3600 sz\<rparr>))))"

text \<open>Decimal rendering of a number in a template literal.\<close>

function showNat :: "nat \<Rightarrow> string" where
  "showNat n = (if n < 10 then [''0123456789'' ! n]
                else showNat (n div 10) @ [''0123456789'' ! (n mod 10)])"
  by pat_completeness auto
termination
  by (relation "measure id") auto

declare showNat.simps [simp del]

definition showInt :: "int \<Rightarrow> string" where
  "showInt i = (if i < 0 then CHR ''-'' # showNat (nat (- i)) else showNat (nat i))"

text \<open>
  \<^verbatim>\<open>downloadPart\<close> run to completion while no other call is in flight: the maps
  \<^verbatim>\<open>downloadQueue\<close> and \<^verbatim>\<open>activeDownloads\<close> are empty when it starts, so the
  in-progress test fails and \<^verbatim>\<open>waitForSlot\<close> returns at once, and its
  \<^verbatim>\<open>finally\<close> block leaves them empty again. The interleaved executions are modelled
  in the section on concurrent calls.
\<close>

definition downloadKey :: "FilePart \<Rightarrow> string" where
  "downloadKey part = fp_url part @ ''#part'' @ showInt (fp_partNumber part)"

definition downloadPart ::
  "network \<Rightarrow> int \<Rightarrow> FilePart \<Rightarrow> string \<Rightarrow> bool \<Rightarrow> state \<Rightarrow> (net_error + bytes) \<times> state" where
  "downloadPart net now part sessionId isSlow s =
     (case redis_get now (file_part_cache s) (downloadKey part) of
        Some cachedPart \<Rightarrow> (Inr cachedPart, s)
      | None \<Rightarrow>
          (let start = (fp_partNumber part - 1) * MAX_PART_SIZE;
               endpos = start + fp_size part - 1
           in case http net (GetRange (fp_url part) start endpos isSlow) s of
                (Inl e, s1) \<Rightarrow> (Inl e, s1)
              | (Inr response, s1) \<Rightarrow>
                  (Inr (data response),
                   s1\<lparr>file_part_cache :=
                        redis_setex now (file_part_cache s1) (downloadKey part) 3600
                          (data response)\<rparr>)))"

section \<open>route.ts: the POST handler\<close>

text \<open>
  The fields the handler reads from the JSON body and the headers. \<open>req_url\<close> is
  \<open>None\<close> when \<^verbatim>\<open>url\<close> is missing or not a string; \<open>req_partSize\<close> is the JSON number
  the page sends as \<^verbatim>\<open>partSize\<close> (\<open>None\<close> when it sends \<^verbatim>\<open>undefined\<close>);
  \<open>req_forwardedFor\<close> is the header \<^verbatim>\<open>x-forwarded-for\<close>.
\<close>

record request =
  req_url :: "string option"
  req_mode :: string
  req_downloadSpeed :: string
  req_sessionId :: string
  req_partSize :: "int option"
  req_forwardedFor :: "string option"

text \<open>
  The responses: a JSON error with its status, message and \<^verbatim>\<open>remaining\<close> field, a
  JSON descriptor (status 200), and a binary payload with the file name of its
  \<^verbatim>\<open>Content-Disposition\<close> header (status 200).
\<close>

datatype response =
    ErrorResponse nat string "jsnum option"
  | JsonResponse file_info
  | FileResponse bytes string

fun status :: "response \<Rightarrow> nat" where
  "status (ErrorResponse st msg rem) = st"
| "status (JsonResponse info) = 200"
| "status (FileResponse body name) = 200"

text \<open>
  What is thrown inside the handler: an error of axios, or the validation error of the
  Prisma client.
\<close>

datatype thrown = AxiosError net_error | PrismaClientValidationError

text \<open>
  TypeScript's types are gone at run time. What the handler passes as \<^verbatim>\<open>type\<close> to
  \<^verbatim>\<open>rateLimiter.recordDownload\<close> is the value of \<^verbatim>\<open>contentType\<close>, which is the
  object that \<^verbatim>\<open>detectContentType\<close> resolved to (line 86), not a string.
\<close>

datatype js_value = JSString string | JSObject ContentInfo

text \<open>
  \<^verbatim>\<open>rateLimiter.recordDownload\<close> as it runs: \<^verbatim>\<open>prisma.downloadHistory.create\<close>
  validates its data against the schema and throws when \<^verbatim>\<open>type\<close> is not a string;
  no row is written then.
\<close>

definition rateLimiter_recordDownload_call ::
  "DownloadHistory list \<Rightarrow> int \<Rightarrow> string \<Rightarrow> string \<Rightarrow> js_value
     \<Rightarrow> thrown + DownloadHistory list" where
  "rateLimiter_recordDownload_call tbl now sessionId url type =
     (case type of
        JSString t \<Rightarrow> Inr (rateLimiter_recordDownload tbl now sessionId url t)
      | JSObject obj \<Rightarrow> Inl PrismaClientValidationError)"

definition CACHE_DURATION :: int where
  "CACHE_DURATION = 3600"

definition MAX_SIZE :: int where
  "MAX_SIZE = 5 * 1024 * 1024 * 1024"

text \<open>\<^verbatim>\<open>request.headers.get('x-forwarded-for') || 'unknown'\<close>\<close>

definition clientAddress :: "string option \<Rightarrow> string" where
  "clientAddress forwardedFor =
     (case forwardedFor of
        None \<Rightarrow> ''unknown''
      | Some h \<Rightarrow> if h = [] then ''unknown'' else h)"

text \<open>
  Lines 41-55: the fixed-window counter of the client address. It answers with the
  rejection, or with nothing when the request may go on.
\<close>

definition checkAddressRate ::
  "int \<Rightarrow> string option \<Rightarrow> (string \<rightharpoonup> int entry) \<Rightarrow> response option \<times> (string \<rightharpoonup> int entry)" where
  "checkAddressRate now forwardedFor counters =
     (let ip = clientAddress forwardedFor;
          (rateLimit, counters1) = redis_incr now counters ip;
          counters2 = (if rateLimit = 1 then redis_expire now counters1 ip 60 else counters1)
      in if rateLimit > 100 then
           (Some (ErrorResponse 429 ''Too many requests. Please try again later.'' None),
            counters2)
         else (None, counters2))"

text \<open>\<^verbatim>\<open>`${url}#part${partSize}`\<close>; an absent \<^verbatim>\<open>partSize\<close> renders as \<^verbatim>\<open>undefined\<close>.\<close>

definition showPartSize :: "int option \<Rightarrow> string" where
  "showPartSize partSize = (case partSize of None \<Rightarrow> ''undefined'' | Some n \<Rightarrow> showInt n)"

definition partUrl :: "string \<Rightarrow> int option \<Rightarrow> string" where
  "partUrl url partSize = url @ ''#part'' @ showPartSize partSize"

text \<open>Lines 57-67: the unlock gate of the fast path.\<close>

definition checkFastUnlock :: "int \<Rightarrow> request \<Rightarrow> string \<Rightarrow> state \<Rightarrow> response option" where
  "checkFastUnlock now req url s =
     (if req_downloadSpeed req = ''fast'' then
        (if \<not> isUnlocked (adUnlock s) now (req_sessionId req) (partUrl url (req_partSize req)) then
           Some (ErrorResponse 403
                   ''Fast download not unlocked for this part. Please watch the ad first.'' None)
         else None)
      else None)"

text \<open>Lines 69-78: the session quota, for history mode only.\<close>

definition checkHistoryLimit :: "int \<Rightarrow> request \<Rightarrow> state \<Rightarrow> response option" where
  "checkHistoryLimit now req s =
     (if req_mode req = ''history'' then
        (let res = checkLimit defaultConfig (downloadHistory s) now (req_sessionId req)
         in if \<not> allowed res then
              Some (ErrorResponse 429 ''Rate limit exceeded'' (Some (Fin (remaining res))))
            else None)
      else None)"

text \<open>
  Line 89, \<^verbatim>\<open>contentType === 'torrent'\<close>: \<^verbatim>\<open>contentType\<close> is the object that
  \<^verbatim>\<open>detectContentType\<close> resolved to, and strict equality of an object and a string is
  false.
\<close>

definition strictEqualsString :: "ContentInfo \<Rightarrow> string \<Rightarrow> bool" where
  "strictEqualsString obj str = False"

text \<open>
  \<^verbatim>\<open>await rateLimiter.recordDownload(sessionId, key, contentType)\<close> (lines 98, 145 and
  172): the new state, or what was thrown.
\<close>

definition recordHistory :: "int \<Rightarrow> request \<Rightarrow> string \<Rightarrow> ContentInfo \<Rightarrow> state \<Rightarrow> thrown + state" where
  "recordHistory now req key contentType s =
     (case rateLimiter_recordDownload_call (downloadHistory s) now (req_sessionId req) key
             (JSObject contentType) of
        Inl e \<Rightarrow> Inl e
      | Inr tbl \<Rightarrow> Inr (s\<lparr>downloadHistory := tbl\<rparr>))"

text \<open>Lines 90-107: the torrent descriptor.\<close>

definition torrentBranch ::
  "int \<Rightarrow> request \<Rightarrow> string \<Rightarrow> ContentInfo \<Rightarrow> state \<Rightarrow> (thrown + response) \<times> state" where
  "torrentBranch now req url contentType s =
     (let torrentInfo = TorrentInfo url (req_mode req) (req_sessionId req) now
      in case recordHistory now req url contentType s of
           Inl e \<Rightarrow> (Inl e, s)
         | Inr s1 \<Rightarrow>
             (let s2 = s1\<lparr>userDownloads :=
                           downloadLimiter_recordDownload (userDownloads s1) now
                             (req_sessionId req) url ''torrent'' None\<rparr>;
                  s3 = s2\<lparr>file_info_cache :=
                           redis_setex now (file_info_cache s2) url CACHE_DURATION torrentInfo\<rparr>
              in (Inr (JsonResponse torrentInfo), s3)))"

text \<open>Lines 115-133: the descriptor of an oversized resource, when no part is asked for.\<close>

definition largeFileBranch :: "int \<Rightarrow> string \<Rightarrow> int \<Rightarrow> state \<Rightarrow> response \<times> state" where
  "largeFileBranch now url fileSize s =
     (let largeFileInfo = LargeFileInfo url fileSize MAX_SIZE (ceil_div fileSize MAX_SIZE)
      in (JsonResponse largeFileInfo,
          s\<lparr>file_info_cache :=
               redis_setex now (file_info_cache s) url CACHE_DURATION largeFileInfo\<rparr>))"

text \<open>
  Lines 135-141: the part handed to \<^verbatim>\<open>downloadPart\<close>; \<^verbatim>\<open>parseInt\<close> of the number
  \<open>n\<close> is \<open>n\<close>.
\<close>

definition requestedPart :: "string \<Rightarrow> int \<Rightarrow> int \<Rightarrow> FilePart" where
  "requestedPart url n fileSize =
     \<lparr>fp_url = url, fp_partNumber = n, fp_size = MAX_SIZE,
      fp_totalParts = ceil_div fileSize MAX_SIZE\<rparr>"

text \<open>Lines 135-157: one part of an oversized resource.\<close>

definition partBranch ::
  "network \<Rightarrow> int \<Rightarrow> request \<Rightarrow> string \<Rightarrow> ContentInfo \<Rightarrow> int \<Rightarrow> int \<Rightarrow> state
     \<Rightarrow> (thrown + response) \<times> state" where
  "partBranch net now req url contentType fileSize n s =
     (case downloadPart net now (requestedPart url n fileSize) (req_sessionId req)
             (req_downloadSpeed req = ''slow'') s of
        (Inl e, s1) \<Rightarrow> (Inl (AxiosError e), s1)
      | (Inr part, s1) \<Rightarrow>
          (case (if req_mode req = ''history'' then
                   recordHistory now req (partUrl url (Some n)) contentType s1
                 else Inr s1) of
             Inl e \<Rightarrow> (Inl e, s1)
           | Inr s2 \<Rightarrow>
               (let s3 = s2\<lparr>userDownloads :=
                             downloadLimiter_recordDownload (userDownloads s2) now
                               (req_sessionId req) url ''part'' (Some n)\<rparr>
                in (Inr (FileResponse part (''part_'' @ showInt n @ ''.zip'')), s3))))"

text \<open>Lines 160-193: the whole resource in one request.\<close>

definition wholeFile ::
  "network \<Rightarrow> int \<Rightarrow> request \<Rightarrow> string \<Rightarrow> ContentInfo \<Rightarrow> state \<Rightarrow> (thrown + response) \<times> state" where
  "wholeFile net now req url contentType s =
     (case http net (Get url (req_downloadSpeed req = ''slow'')) s of
        (Inl e, s1) \<Rightarrow> (Inl (AxiosError e), s1)
      | (Inr fileResponse, s1) \<Rightarrow>
          (case (if req_mode req = ''history'' then recordHistory now req url contentType s1
                 else Inr s1) of
             Inl e \<Rightarrow> (Inl e, s1)
           | Inr s2 \<Rightarrow>
               (let s3 = s2\<lparr>userDownloads :=
                             downloadLimiter_recordDownload (userDownloads s2) now
                               (req_sessionId req) url ''file'' None\<rparr>;
                    s4 = s3\<lparr>file_info_cache :=
                             redis_setex now (file_info_cache s3) url CACHE_DURATION
                               (FileInfo url (content_type fileResponse)
                                  (int (length (data fileResponse))))\<rparr>
                in (Inr (FileResponse (data fileResponse) ''downloaded_file.[object Object]''),
                    s4))))"

text \<open>
  Lines 114-193: the branch on the size. \<^verbatim>\<open>NaN > MAX_SIZE\<close> is false;
  \<^verbatim>\<open>!partSize\<close> holds for \<^verbatim>\<open>undefined\<close> and for \<open>0\<close>.
\<close>

definition serveBySize ::
  "network \<Rightarrow> int \<Rightarrow> request \<Rightarrow> string \<Rightarrow> ContentInfo \<Rightarrow> int option \<Rightarrow> state
     \<Rightarrow> (thrown + response) \<times> state" where
  "serveBySize net now req url contentType fileSize s =
     (case fileSize of
        None \<Rightarrow> wholeFile net now req url contentType s
      | Some sz \<Rightarrow>
          if sz > MAX_SIZE then
            (case req_partSize req of
               None \<Rightarrow> (case largeFileBranch now url sz s of (r, s1) \<Rightarrow> (Inr r, s1))
             | Some n \<Rightarrow>
                 if n = 0 then (case largeFileBranch now url sz s of (r, s1) \<Rightarrow> (Inr r, s1))
                 else partBranch net now req url contentType sz n s)
          else wholeFile net now req url contentType s)"

text \<open>Lines 84-194: the body of \<^verbatim>\<open>if (!fileInfo)\<close>.\<close>

definition handleMiss ::
  "network \<Rightarrow> int \<Rightarrow> request \<Rightarrow> string \<Rightarrow> state \<Rightarrow> (thrown + response) \<times> state" where
  "handleMiss net now req url s =
     (case detectContentType net url s of
        (contentType, s1) \<Rightarrow>
          if strictEqualsString contentType ''torrent'' then
            torrentBranch now req url contentType s1
          else
            (case getFileSize net now url s1 of
               (Inl e, s2) \<Rightarrow> (Inl (AxiosError e), s2)
             | (Inr fileSize, s2) \<Rightarrow> serveBySize net now req url contentType fileSize s2))"

text \<open>
  The handler. An exception thrown inside \<^verbatim>\<open>try\<close> is caught and answered with
  status 500; what was written before it stays written.
\<close>

definition POST :: "network \<Rightarrow> int \<Rightarrow> request \<Rightarrow> state \<Rightarrow> response \<times> state" where
  "POST net now req s =
     (case req_url req of
        None \<Rightarrow> (ErrorResponse 400 ''Invalid URL'' None, s)
      | Some url \<Rightarrow>
          if url = [] then (ErrorResponse 400 ''Invalid URL'' None, s)
          else
            (case checkDownloadLimit (req_sessionId req) of
               (canDownload, limitRemaining) \<Rightarrow>
                 if \<not> canDownload then
                   (ErrorResponse 429
                      ''Download limit reached. Watch an ad to continue downloading.''
                      (Some limitRemaining), s)
                 else
                   (case checkAddressRate now (req_forwardedFor req) (rate_limit s) of
                      (Some rejection, counters) \<Rightarrow> (rejection, s\<lparr>rate_limit := counters\<rparr>)
                    | (None, counters) \<Rightarrow>
                        (let s1 = s\<lparr>rate_limit := counters\<rparr>
                         in case checkFastUnlock now req url s1 of
                              Some rejection \<Rightarrow> (rejection, s1)
                            | None \<Rightarrow>
                                (case checkHistoryLimit now req s1 of
                                   Some rejection \<Rightarrow> (rejection, s1)
                                 | None \<Rightarrow>
                                     (case redis_get now (file_info_cache s1) url of
                                        Some fileInfo \<Rightarrow> (JsonResponse fileInfo, s1)
                                      | None \<Rightarrow>
                                          (case handleMiss net now req url s1 of
                                             (Inl e, s2) \<Rightarrow>
                                               (ErrorResponse 500 ''Download failed'' None, s2)
                                           | (Inr r, s2) \<Rightarrow> (r, s2))))))))"

section \<open>fileSplitter.ts: concurrent calls of downloadPart\<close>

text \<open>
  JavaScript runs a call until it reaches an \<^verbatim>\<open>await\<close>; there it is suspended and
  other calls run. A call of \<^verbatim>\<open>downloadPart\<close> is suspended at
  \<^verbatim>\<open>await redis.getBuffer(cacheKey)\<close>, at \<^verbatim>\<open>await this.waitForSlot()\<close> and at
  \<^verbatim>\<open>await downloadPromise\<close>; a call that finds its key in \<^verbatim>\<open>downloadQueue\<close> returns
  the promise stored there and waits for it. The code between two suspension points is one
  step of the model.
\<close>

datatype outcome = Resolved bytes | Rejected

datatype task_state =
    AwaitQueued nat
  | AwaitCache
  | AwaitSlot
  | AwaitFetch nat
  | Finished outcome

record task =
  t_part :: FilePart
  t_isSlow :: bool
  t_state :: task_state

text \<open>
  The static maps of the class, the part cache, the range requests sent so far (request
  number \<open>p\<close> is the one behind promise \<open>p\<close>, stored with its key), the promises that
  have settled, and the calls by number.
\<close>

record fetcher =
  downloadQueue :: "string \<rightharpoonup> nat"
  activeDownloads :: "string set"
  partCache :: "string \<rightharpoonup> bytes"
  requests :: "(string \<times> net_call) list"
  settled :: "nat \<rightharpoonup> outcome"
  tasks :: "nat \<rightharpoonup> task"

definition MAX_CONCURRENT_DOWNLOADS :: nat where
  "MAX_CONCURRENT_DOWNLOADS = 5"

definition emptyFetcher :: fetcher where
  "emptyFetcher =
     \<lparr>downloadQueue = Map.empty, activeDownloads = {}, partCache = Map.empty, requests = [],
      settled = Map.empty, tasks = Map.empty\<rparr>"

datatype event =
    Call nat FilePart bool
  | CacheReply nat
  | SlotCheck nat
  | NetReply nat outcome

text \<open>
  \<open>Call\<close>: lines 68-77, a new call up to its first \<^verbatim>\<open>await\<close>.
\<close>

definition stepCall :: "nat \<Rightarrow> FilePart \<Rightarrow> bool \<Rightarrow> fetcher \<Rightarrow> fetcher" where
  "stepCall tid part isSlow f =
     (case downloadQueue f (downloadKey part) of
        Some p \<Rightarrow>
          f\<lparr>tasks := (tasks f)(tid \<mapsto>
               \<lparr>t_part = part, t_isSlow = isSlow,
                t_state = (case settled f p of None \<Rightarrow> AwaitQueued p | Some out \<Rightarrow> Finished out)\<rparr>)\<rparr>
      | None \<Rightarrow> f\<lparr>tasks := (tasks f)(tid \<mapsto>
               \<lparr>t_part = part, t_isSlow = isSlow, t_state = AwaitCache\<rparr>)\<rparr>)"

text \<open>
  \<open>CacheReply\<close>: lines 77-84, from the answer of the cache to the call of
  \<^verbatim>\<open>waitForSlot\<close>.
\<close>

definition stepCacheReply :: "nat \<Rightarrow> task \<Rightarrow> fetcher \<Rightarrow> fetcher" where
  "stepCacheReply tid t f =
     (case partCache f (downloadKey (t_part t)) of
        Some cachedPart \<Rightarrow> f\<lparr>tasks := (tasks f)(tid \<mapsto> t\<lparr>t_state := Finished (Resolved cachedPart)\<rparr>)\<rparr>
      | None \<Rightarrow> f\<lparr>tasks := (tasks f)(tid \<mapsto> t\<lparr>t_state := AwaitSlot\<rparr>)\<rparr>)"

text \<open>
  \<open>SlotCheck\<close>: the loop test of \<^verbatim>\<open>waitForSlot\<close> (lines 57-61) and, when a slot is
  free, lines 85-112: the key is added to \<^verbatim>\<open>activeDownloads\<close>, the range request is
  sent, its promise is stored in \<^verbatim>\<open>downloadQueue\<close>, and the call waits for it.
\<close>

definition stepSlotCheck :: "nat \<Rightarrow> task \<Rightarrow> fetcher \<Rightarrow> fetcher" where
  "stepSlotCheck tid t f =
     (if card (activeDownloads f) \<ge> MAX_CONCURRENT_DOWNLOADS then f
      else
        (let part = t_part t;
             start = (fp_partNumber part - 1) * MAX_PART_SIZE;
             endpos = start + fp_size part - 1;
             p = length (requests f)
         in f\<lparr>activeDownloads := insert (downloadKey part) (activeDownloads f),
               requests := requests f @ [(downloadKey part, GetRange (fp_url part) start endpos (t_isSlow t))],
               downloadQueue := (downloadQueue f)(downloadKey part \<mapsto> p),
               tasks := (tasks f)(tid \<mapsto> t\<lparr>t_state := AwaitFetch p\<rparr>)\<rparr>))"

text \<open>
  \<open>NetReply\<close>: request \<open>p\<close> settles. On success the \<^verbatim>\<open>then\<close> callback caches the
  data (lines 102-109). The call that sent the request resumes at line 112 and runs its
  \<^verbatim>\<open>finally\<close> block, which deletes its key from both maps (lines 115-118); every call
  waiting for promise \<open>p\<close> gets its outcome.
\<close>

definition resume :: "nat \<Rightarrow> outcome \<Rightarrow> task \<Rightarrow> task" where
  "resume p out t =
     (if t_state t = AwaitFetch p \<or> t_state t = AwaitQueued p then t\<lparr>t_state := Finished out\<rparr>
      else t)"

definition stepNetReply :: "nat \<Rightarrow> outcome \<Rightarrow> fetcher \<Rightarrow> fetcher" where
  "stepNetReply p out f =
     (if p < length (requests f) \<and> settled f p = None then
        (let key = fst (requests f ! p)
         in f\<lparr>settled := (settled f)(p \<mapsto> out),
               partCache := (case out of Resolved bs \<Rightarrow> (partCache f)(key \<mapsto> bs)
                                       | Rejected \<Rightarrow> partCache f),
               activeDownloads := activeDownloads f - {key},
               downloadQueue := (downloadQueue f)(key := None),
               tasks := (\<lambda>tid. map_option (resume p out) (tasks f tid))\<rparr>)
      else f)"

text \<open>An event that does not fit the state of its call changes nothing.\<close>

fun step :: "event \<Rightarrow> fetcher \<Rightarrow> fetcher" where
  "step (Call tid part isSlow) f =
     (case tasks f tid of None \<Rightarrow> stepCall tid part isSlow f | Some t \<Rightarrow> f)"
| "step (CacheReply tid) f =
     (case tasks f tid of
        None \<Rightarrow> f
      | Some t \<Rightarrow> if t_state t = AwaitCache then stepCacheReply tid t f else f)"
| "step (SlotCheck tid) f =
     (case tasks f tid of
        None \<Rightarrow> f
      | Some t \<Rightarrow> if t_state t = AwaitSlot then stepSlotCheck tid t f else f)"
| "step (NetReply p out) f = stepNetReply p out f"

fun run :: "event list \<Rightarrow> fetcher \<Rightarrow> fetcher" where
  "run [] f = f"
| "run (e # es) f = run es (step e f)"

text \<open>The requests for a key that have been sent and have not settled.\<close>

definition outstanding :: "fetcher \<Rightarrow> string \<Rightarrow> nat list" where
  "outstanding f key =
     filter (\<lambda>p. fst (requests f ! p) = key \<and> settled f p = None) [0..<length (requests f)]"

section \<open>Request sequences\<close>


text \<open>The rejection of the address counter.\<close>

definition tooManyRequests :: response where
  "tooManyRequests = ErrorResponse 429 ''Too many requests. Please try again later.'' None"

section \<open>Responses, predicates and sample inputs used in the statements\<close>

text \<open>The rejections of the handler, by name.\<close>

definition invalidUrl :: response where
  "invalidUrl = ErrorResponse 400 ''Invalid URL'' None"

definition unlockRequired :: response where
  "unlockRequired =
     ErrorResponse 403 ''Fast download not unlocked for this part. Please watch the ad first.'' None"

definition quotaExceeded :: "int \<Rightarrow> response" where
  "quotaExceeded left = ErrorResponse 429 ''Rate limit exceeded'' (Some (Fin left))"

text \<open>
  The first two tests of the handler: the request carries a non-empty string as URL, and the
  address counter lets it pass.
\<close>

definition validUrl :: "request \<Rightarrow> bool" where
  "validUrl req = (case req_url req of None \<Rightarrow> False | Some url \<Rightarrow> url \<noteq> [])"

definition addressAdmitted :: "int \<Rightarrow> request \<Rightarrow> state \<Rightarrow> bool" where
  "addressAdmitted now req s =
     (fst (checkAddressRate now (req_forwardedFor req) (rate_limit s)) = None)"

text \<open>
  An unexpired unlock token exists for the session of the request and its resource key
  \<^verbatim>\<open>`${url}#part${partSize}`\<close>.
\<close>

definition unlockedFor :: "state \<Rightarrow> int \<Rightarrow> request \<Rightarrow> bool" where
  "unlockedFor s now req =
     (case req_url req of
        None \<Rightarrow> False
      | Some url \<Rightarrow> isUnlocked (adUnlock s) now (req_sessionId req) (partUrl url (req_partSize req)))"

text \<open>
  Both record tables are as before; and: the request is not in history mode, one row was
  appended to \<^verbatim>\<open>UserDownloads\<close> for this session and this instant, and
  \<^verbatim>\<open>DownloadHistory\<close> is as before.
\<close>

definition sameRecords :: "state \<Rightarrow> state \<Rightarrow> bool" where
  "sameRecords s s' = (downloadHistory s' = downloadHistory s \<and> userDownloads s' = userDownloads s)"

definition recordedDownload :: "request \<Rightarrow> int \<Rightarrow> state \<Rightarrow> state \<Rightarrow> bool" where
  "recordedDownload req now s s' =
     (req_mode req \<noteq> ''history''
      \<and> (\<exists>r. userDownloads s' = userDownloads s @ [r]
             \<and> ud_userId r = req_sessionId req \<and> ud_createdAt r = now)
      \<and> downloadHistory s' = downloadHistory s)"

text \<open>
  The bytes were produced: they are the body of the successful answer to the last request
  the server sent, or a live entry of the part cache.
\<close>

definition answered :: "network \<Rightarrow> state \<Rightarrow> bytes \<Rightarrow> bool" where
  "answered net s' body =
     (netlog s' \<noteq> []
      \<and> (\<exists>r. net (length (netlog s') - 1) (last (netlog s')) = Inr r \<and> data r = body))"

definition produced :: "network \<Rightarrow> int \<Rightarrow> state \<Rightarrow> bytes \<Rightarrow> bool" where
  "produced net now s' body =
     (answered net s' body \<or> (\<exists>key. redis_get now (file_part_cache s') key = Some body))"

text \<open>
  What the paths of the handler guarantee about records: an error and a descriptor leave
  the tables alone, a payload comes with its records and was produced.
\<close>

definition served :: "network \<Rightarrow> request \<Rightarrow> int \<Rightarrow> state \<Rightarrow> (thrown + response) \<times> state \<Rightarrow> bool" where
  "served net req now s res =
     (case res of
        (Inl e, s') \<Rightarrow> sameRecords s s'
      | (Inr (FileResponse body name), s') \<Rightarrow>
          recordedDownload req now s s' \<and> produced net now s' body
      | (Inr other, s') \<Rightarrow> sameRecords s s')"

text \<open>Replacing the history table in a result.\<close>

definition withHistory :: "DownloadHistory list \<Rightarrow> 'a \<times> state \<Rightarrow> 'a \<times> state" where
  "withHistory tbl res = (fst res, (snd res)\<lparr>downloadHistory := tbl\<rparr>)"

text \<open>
  Sample inputs: a server that answers every request for a resource of the given type, size
  and content, a network that fails every request, the state of a fresh server, a request
  for \<^verbatim>\<open>http://h/f\<close>, a state whose address counter stands at 100, a state with a
  token granted at time 500, and three recorded downloads of one session.
\<close>

definition fileServer :: "string option \<Rightarrow> int \<Rightarrow> bytes \<Rightarrow> network" where
  "fileServer ctype sz body n call =
     (case call of
        Head u \<Rightarrow> Inr \<lparr>content_type = ctype, content_length = Some sz, data = []\<rparr>
      | Get u slow \<Rightarrow> Inr \<lparr>content_type = ctype, content_length = Some sz, data = body\<rparr>
      | GetSample u \<Rightarrow> Inr \<lparr>content_type = ctype, content_length = Some sz, data = body\<rparr>
      | GetRange u a b slow \<Rightarrow>
          Inr \<lparr>content_type = ctype, content_length = Some (b - a + 1),
               data = take (nat (b - a + 1)) (drop (nat a) body)\<rparr>)"

definition noNetwork :: network where
  "noNetwork n call = Inl NetworkError"

definition emptyState :: state where
  "emptyState =
     \<lparr>rate_limit = Map.empty, file_info_cache = Map.empty, file_size_cache = Map.empty,
      file_part_cache = Map.empty, adUnlock = Map.empty, downloadHistory = [],
      userDownloads = [], netlog = []\<rparr>"

definition demoRequest :: "string \<Rightarrow> string \<Rightarrow> int option \<Rightarrow> request" where
  "demoRequest mode speed partSize =
     \<lparr>req_url = Some ''http://h/f'', req_mode = mode, req_downloadSpeed = speed,
      req_sessionId = ''s1'', req_partSize = partSize, req_forwardedFor = Some ''10.0.0.1''\<rparr>"

definition busyState :: state where
  "busyState = emptyState\<lparr>rate_limit := [''10.0.0.1'' \<mapsto> (100, Some 60000)]\<rparr>"

definition unlockedState :: state where
  "unlockedState =
     emptyState\<lparr>adUnlock := snd (trackAdWatch Map.empty 500 ''s1'' ''http://h/f#partundefined'' 6000)\<rparr>"

definition threeRecords :: "DownloadHistory list" where
  "threeRecords =
     rateLimiter_recordDownload
       (rateLimiter_recordDownload
          (rateLimiter_recordDownload [] 0 ''s1'' ''http://h/a'' ''file'')
          1000 ''s1'' ''http://h/b'' ''file'')
       2000 ''s1'' ''http://h/c'' ''file''"

text \<open>
  Two calls of \<^verbatim>\<open>downloadPart\<close> for the same part, the second started while the first
  waits for the answer of the cache. The cache answers the first with a miss, a slot is free
  and the first sends its request; then the same happens to the second.
\<close>

definition thirdPart :: FilePart where
  "thirdPart = \<lparr>fp_url = ''http://h/f'', fp_partNumber = 3, fp_size = 5368709120, fp_totalParts = 3\<rparr>"

definition racingCalls :: "event list" where
  "racingCalls =
     [Call 0 thirdPart False, Call 1 thirdPart False, CacheReply 0, SlotCheck 0,
      CacheReply 1, SlotCheck 1]"

text \<open>The part the loop of \<^verbatim>\<open>splitFile\<close> pushes in round \<open>i\<close>.\<close>

definition mkPart :: "int \<Rightarrow> int \<Rightarrow> int \<Rightarrow> int \<Rightarrow> FilePart" where
  "mkPart maxPart fileSize totalParts i =
     \<lparr>fp_url = '''', fp_partNumber = i,
      fp_size = min ((i - 1) * maxPart + maxPart) fileSize - (i - 1) * maxPart,
      fp_totalParts = totalParts\<rparr>"

section \<open>Unfolding rules for evaluation\<close>

lemmas model_defs =
  POST_def checkDownloadLimit_def checkAddressRate_def clientAddress_def checkFastUnlock_def
  checkHistoryLimit_def handleMiss_def strictEqualsString_def serveBySize_def wholeFile_def
  partBranch_def largeFileBranch_def requestedPart_def detectContentType_def getFileSize_def
  downloadPart_def downloadKey_def http_def redis_get_def redis_setex_def redis_incr_def
  redis_expire_def live_def isUnlocked_def partUrl_def showPartSize_def checkLimit_def
  downloadCount_def defaultConfig_def rateLimiter_recordDownload_def
  rateLimiter_recordDownload_call_def recordHistory_def torrentBranch_def
  downloadLimiter_recordDownload_def startsWith_def endsWith_def str_includes_def
  includes_opt_def isLargeFile_of_def MAX_SIZE_def MAX_PART_SIZE_def CACHE_DURATION_def
  ceil_div_def showInt_def Let_def

lemmas fetcher_defs =
  stepCall_def stepCacheReply_def stepSlotCheck_def stepNetReply_def resume_def outstanding_def
  emptyFetcher_def MAX_CONCURRENT_DOWNLOADS_def downloadKey_def MAX_PART_SIZE_def Let_def

section \<open>Properties of the part planner\<close>

lemma splitFile_loop_closed:
  "splitFile_loop m t n i parts = parts @ map (mkPart m t n) [i..n]"
proof (induction m t n i parts rule: splitFile_loop.induct)
  case (1 m t n i parts)
  show ?case
  proof (cases "i \<le> n")
    case True
    have "[i..n] = i # [i + 1..n]"
      using True by (simp add: upto_rec1)
    with True 1 show ?thesis
      by (simp add: splitFile_loop.simps [of m t n i parts] mkPart_def Let_def)
  next
    case False
    then show ?thesis
      by (simp add: splitFile_loop.simps [of m t n i parts])
  qed
qed

lemma splitFileWith_closed:
  "splitFileWith m t = map (mkPart m t (ceil_div t m)) [1..ceil_div t m]"
  by (simp add: splitFileWith_def Let_def splitFile_loop_closed)

lemma ceil_div_ceiling:
  "0 < b \<Longrightarrow> ceil_div a b = \<lceil>real_of_int a / real_of_int b\<rceil>"
proof -
  have "\<lfloor>real_of_int (- a) / real_of_int b\<rfloor> = (- a) div b"
    by (rule floor_divide_of_int_eq)
  then show ?thesis
    by (simp add: ceil_div_def ceiling_def)
qed

lemma ceil_div_bounds:
  assumes "0 < m"
  shows "(ceil_div t m - 1) * m < t" and "t \<le> ceil_div t m * m"
proof -
  define q where "q = (- t) div m"
  define r where "r = (- t) mod m"
  have eq: "- t = q * m + r" by (simp add: q_def r_def)
  have r: "0 \<le> r" "r < m" using assms by (simp_all add: r_def)
  have c: "ceil_div t m = - q" by (simp add: ceil_div_def q_def)
  have t: "t = - q * m - r" using eq by simp
  show "(ceil_div t m - 1) * m < t"
    unfolding c using t r by (simp add: algebra_simps)
  show "t \<le> ceil_div t m * m"
    unfolding c using t r by (simp add: algebra_simps)
qed

lemma ceil_div_pos:
  assumes "0 < m" "0 < t"
  shows "1 \<le> ceil_div t m"
proof (rule ccontr)
  assume "\<not> 1 \<le> ceil_div t m"
  then have "ceil_div t m \<le> 0" by simp
  then have "ceil_div t m * m \<le> 0" using assms(1) by (simp add: mult_le_0_iff)
  with ceil_div_bounds(2) [OF assms(1), of t] assms(2) show False by simp
qed

lemma ceil_div_nonpos:
  assumes "0 < m" "t \<le> 0"
  shows "ceil_div t m \<le> 0"
proof (rule ccontr)
  assume "\<not> ceil_div t m \<le> 0"
  then have "0 \<le> ceil_div t m - 1" by simp
  then have "0 \<le> (ceil_div t m - 1) * m" using assms(1) by simp
  with ceil_div_bounds(1) [OF assms(1), of t] assms(2) show False by simp
qed

lemma mkPart_size_inner:
  assumes "0 < m" "1 \<le> i" "i < ceil_div t m"
  shows "fp_size (mkPart m t (ceil_div t m) i) = m"
proof -
  have "i * m \<le> (ceil_div t m - 1) * m"
    using assms by (intro mult_right_mono) simp_all
  with ceil_div_bounds(1) [OF assms(1), of t] have "i * m < t" by simp
  then show ?thesis by (simp add: mkPart_def algebra_simps)
qed

lemma mkPart_size_last:
  assumes "0 < m"
  shows "fp_size (mkPart m t (ceil_div t m) (ceil_div t m)) = t - (ceil_div t m - 1) * m"
  using ceil_div_bounds(2) [OF assms, of t] by (simp add: mkPart_def algebra_simps)

lemma mkPart_rangeEnd:
  assumes "0 < m" "1 \<le> i" "i \<le> ceil_div t m"
  shows "rangeEnd m (mkPart m t (ceil_div t m) i) = (if i < ceil_div t m then i * m - 1 else t - 1)"
proof (cases "i < ceil_div t m")
  case True
  then show ?thesis
    using mkPart_size_inner [OF assms(1,2) True]
    by (simp add: rangeEnd_def rangeStart_def mkPart_def algebra_simps)
next
  case False
  with assms have "i = ceil_div t m" by simp
  then show ?thesis
    using mkPart_size_last [OF assms(1), of t]
    by (simp add: rangeEnd_def rangeStart_def mkPart_def algebra_simps)
qed


lemma splitFileWith_length: "length (splitFileWith m t) = nat (ceil_div t m)"
  by (simp add: splitFileWith_closed)

lemma splitFileWith_nth:
  assumes "k < nat (ceil_div t m)"
  shows "splitFileWith m t ! k = mkPart m t (ceil_div t m) (int k + 1)"
  using assms by (simp add: splitFileWith_closed algebra_simps)

lemma splitFileWith_set:
  "set (splitFileWith m t) = mkPart m t (ceil_div t m) ` {1..ceil_div t m}"
  by (simp add: splitFileWith_closed)

lemma mkPart_byteRange:
  assumes "0 < m" "1 \<le> i" "i \<le> ceil_div t m"
  shows "byteRange m (mkPart m t (ceil_div t m) i) =
           {(i - 1) * m .. (if i < ceil_div t m then i * m - 1 else t - 1)}"
  unfolding byteRange_def mkPart_rangeEnd [OF assms]
  by (simp add: rangeStart_def mkPart_def)

lemma inner_below_total:
  assumes "0 < m" "i < ceil_div t m"
  shows "i * m < t"
proof -
  have "i * m \<le> (ceil_div t m - 1) * m"
    using assms by (intro mult_right_mono) simp_all
  with ceil_div_bounds(1) [OF assms(1), of t] show ?thesis by simp
qed

lemma ranges_cover:
  assumes "0 < m"
  shows "(\<Union>p\<in>set (splitFileWith m t). byteRange m p) = {0..<t}"
proof (intro equalityI subsetI)
  fix x assume "x \<in> (\<Union>p\<in>set (splitFileWith m t). byteRange m p)"
  then obtain i where i: "1 \<le> i" "i \<le> ceil_div t m"
    and x: "x \<in> byteRange m (mkPart m t (ceil_div t m) i)"
    by (auto simp: splitFileWith_set)
  from x have lo: "(i - 1) * m \<le> x"
    and hi: "x \<le> (if i < ceil_div t m then i * m - 1 else t - 1)"
    by (simp_all add: mkPart_byteRange [OF assms i])
  have "0 \<le> (i - 1) * m" using i assms by simp
  with lo have "0 \<le> x" by simp
  moreover have "x < t"
  proof (cases "i < ceil_div t m")
    case True
    with hi inner_below_total [OF assms True] show ?thesis by simp
  next
    case False
    with hi show ?thesis by simp
  qed
  ultimately show "x \<in> {0..<t}" by simp
next
  fix x assume "x \<in> {0..<t}"
  then have x: "0 \<le> x" "x < t" by simp_all
  define i where "i = x div m + 1"
  have i1: "1 \<le> i" using x assms by (simp add: i_def pos_imp_zdiv_nonneg_iff)
  have lo: "(i - 1) * m \<le> x"
  proof -
    have "x = m * (x div m) + x mod m" by simp
    moreover have "0 \<le> x mod m" using assms by simp
    ultimately have "m * (x div m) \<le> x" by linarith
    then show ?thesis by (simp add: i_def algebra_simps)
  qed
  have up: "x < i * m"
  proof -
    have "x = m * (x div m) + x mod m" by simp
    moreover have "x mod m < m" using assms by simp
    ultimately have "x < m * (x div m) + m" by linarith
    then show ?thesis by (simp add: i_def algebra_simps)
  qed
  have inn: "i \<le> ceil_div t m"
  proof (rule ccontr)
    assume "\<not> i \<le> ceil_div t m"
    then have "ceil_div t m \<le> i - 1" by simp
    then have "ceil_div t m * m \<le> (i - 1) * m"
      using assms by (intro mult_right_mono) simp_all
    with ceil_div_bounds(2) [OF assms, of t] lo x show False by simp
  qed
  have "x \<in> byteRange m (mkPart m t (ceil_div t m) i)"
    using lo up x by (simp add: mkPart_byteRange [OF assms i1 inn])
  moreover have "mkPart m t (ceil_div t m) i \<in> set (splitFileWith m t)"
    using i1 inn by (simp add: splitFileWith_set)
  ultimately show "x \<in> (\<Union>p\<in>set (splitFileWith m t). byteRange m p)" by blast
qed

lemma ranges_disjoint:
  assumes "0 < m" "i < j" "j < length (splitFileWith m t)"
  shows "byteRange m (splitFileWith m t ! i) \<inter> byteRange m (splitFileWith m t ! j) = {}"
proof -
  let ?n = "ceil_div t m"
  from assms have j: "j < nat ?n" and i: "i < nat ?n" by (simp_all add: splitFileWith_length)
  have i1: "int i + 1 < ?n" using assms(2) j by linarith
  have ri: "byteRange m (splitFileWith m t ! i) = {int i * m .. (int i + 1) * m - 1}"
    using i i1 by (simp add: splitFileWith_nth mkPart_byteRange [OF assms(1)])
  have rj: "byteRange m (splitFileWith m t ! j) =
      {int j * m .. (if int j + 1 < ?n then (int j + 1) * m - 1 else t - 1)}"
    using j by (simp add: splitFileWith_nth mkPart_byteRange [OF assms(1)])
  have "(int i + 1) * m \<le> int j * m"
    using assms(1,2) by (intro mult_right_mono) simp_all
  then show ?thesis unfolding ri rj by auto
qed

lemma ranges_contiguous:
  assumes "0 < m" "Suc k < length (splitFileWith m t)"
  shows "rangeStart m (splitFileWith m t ! Suc k) = rangeEnd m (splitFileWith m t ! k) + 1"
proof -
  let ?n = "ceil_div t m"
  from assms have sk: "Suc k < nat ?n" and k: "k < nat ?n" by (simp_all add: splitFileWith_length)
  have k1: "int k + 1 < ?n" using sk by linarith
  have "rangeEnd m (splitFileWith m t ! k) = (int k + 1) * m - 1"
    using k k1 by (simp add: splitFileWith_nth mkPart_rangeEnd [OF assms(1)])
  moreover have "rangeStart m (splitFileWith m t ! Suc k) = (int k + 1) * m"
    using sk by (simp add: splitFileWith_nth rangeStart_def mkPart_def)
  ultimately show ?thesis by simp
qed

lemma ranges_first_last:
  assumes "0 < m" "0 < t"
  shows "splitFileWith m t \<noteq> []"
    and "rangeStart m (hd (splitFileWith m t)) = 0"
    and "rangeEnd m (last (splitFileWith m t)) = t - 1"
proof -
  let ?n = "ceil_div t m"
  have n: "1 \<le> ?n" by (rule ceil_div_pos [OF assms])
  then have len: "0 < length (splitFileWith m t)" by (simp add: splitFileWith_length)
  then show ne: "splitFileWith m t \<noteq> []" by simp
  have "hd (splitFileWith m t) = splitFileWith m t ! 0" using ne by (simp add: hd_conv_nth)
  also have "\<dots> = mkPart m t ?n 1" using n by (simp add: splitFileWith_nth)
  finally show "rangeStart m (hd (splitFileWith m t)) = 0"
    by (simp add: rangeStart_def mkPart_def)
  have "last (splitFileWith m t) = splitFileWith m t ! (nat ?n - 1)"
    using ne by (simp add: last_conv_nth splitFileWith_length)
  also have "\<dots> = mkPart m t ?n ?n" using n by (simp add: splitFileWith_nth)
  finally show "rangeEnd m (last (splitFileWith m t)) = t - 1"
    using n by (simp add: mkPart_rangeEnd [OF assms(1)])
qed

lemma parts_fields:
  assumes "0 < m" "k < length (splitFileWith m t)"
  shows "fp_partNumber (splitFileWith m t ! k) = int k + 1"
    and "fp_totalParts (splitFileWith m t ! k) = ceil_div t m"
    and "0 < fp_size (splitFileWith m t ! k)"
    and "fp_size (splitFileWith m t ! k) \<le> m"
proof -
  let ?n = "ceil_div t m"
  from assms have k: "k < nat ?n" by (simp add: splitFileWith_length)
  have nth: "splitFileWith m t ! k = mkPart m t ?n (int k + 1)"
    by (rule splitFileWith_nth [OF k])
  show "fp_partNumber (splitFileWith m t ! k) = int k + 1"
    and "fp_totalParts (splitFileWith m t ! k) = ceil_div t m"
    by (simp_all add: nth mkPart_def)
  have sz: "0 < fp_size (mkPart m t ?n (int k + 1)) \<and> fp_size (mkPart m t ?n (int k + 1)) \<le> m"
  proof (cases "int k + 1 < ?n")
    case True
    then show ?thesis using assms(1) by (simp add: mkPart_size_inner)
  next
    case False
    with k have e: "int k + 1 = ?n" by linarith
    show ?thesis
      using ceil_div_bounds [OF assms(1), of t]
      unfolding e mkPart_size_last [OF assms(1)] by (simp add: algebra_simps)
  qed
  then show "0 < fp_size (splitFileWith m t ! k)" and "fp_size (splitFileWith m t ! k) \<le> m"
    by (simp_all add: nth)
qed

lemma splitFile_nonpos: "fileSize \<le> 0 \<Longrightarrow> splitFile fileSize = []"
proof -
  assume "fileSize \<le> 0"
  then have "ceil_div fileSize MAX_PART_SIZE \<le> 0"
    by (intro ceil_div_nonpos) (simp_all add: MAX_PART_SIZE_def)
  then show ?thesis
    by (simp add: splitFile_def splitFileWith_closed)
qed

text \<open>
  Claim C2. For every \<open>totalSize > 0\<close> and \<open>maxPartSize > 0\<close> the planner returns
  \<open>ceil(totalSize / maxPartSize)\<close> parts, numbered from 1, each of positive size; the byte
  range of the first part starts at 0, each further range starts right after the one before
  it, the last range ends at \<open>totalSize - 1\<close>, no two ranges share a byte, and together the
  ranges are exactly the bytes \<open>0 .. totalSize - 1\<close>. \<^verbatim>\<open>splitFile\<close> is the planner for the
  part size 5368709120, and for 12000000000 bytes it yields the three sizes 5368709120,
  5368709120, 1262581760.
\<close>

theorem splitFile_tiles:
  "(0 < totalSize \<and> 0 < maxPartSize \<longrightarrow>
     (let parts = splitFileWith maxPartSize totalSize;
          n = ceil_div totalSize maxPartSize
      in n = \<lceil>real_of_int totalSize / real_of_int maxPartSize\<rceil>
       \<and> int (length parts) = n
       \<and> (\<forall>k<length parts.
             fp_partNumber (parts ! k) = int k + 1 \<and> fp_totalParts (parts ! k) = n
             \<and> 0 < fp_size (parts ! k))
       \<and> rangeStart maxPartSize (hd parts) = 0
       \<and> (\<forall>k. Suc k < length parts \<longrightarrow>
             rangeStart maxPartSize (parts ! Suc k) = rangeEnd maxPartSize (parts ! k) + 1)
       \<and> rangeEnd maxPartSize (last parts) = totalSize - 1
       \<and> (\<forall>i j. i < j \<and> j < length parts \<longrightarrow>
             byteRange maxPartSize (parts ! i) \<inter> byteRange maxPartSize (parts ! j) = {})
       \<and> (\<Union>p\<in>set parts. byteRange maxPartSize p) = {0..<totalSize}))
   \<and> splitFile totalSize = splitFileWith 5368709120 totalSize
   \<and> map fp_size (splitFile 12000000000) = [5368709120, 5368709120, 1262581760]"
proof (intro conjI impI)
  assume pos: "0 < totalSize \<and> 0 < maxPartSize"
  then have t: "0 < totalSize" and m: "0 < maxPartSize" by simp_all
  have n1: "1 \<le> ceil_div totalSize maxPartSize" by (rule ceil_div_pos [OF m t])
  show "let parts = splitFileWith maxPartSize totalSize;
            n = ceil_div totalSize maxPartSize
        in n = \<lceil>real_of_int totalSize / real_of_int maxPartSize\<rceil>
         \<and> int (length parts) = n
         \<and> (\<forall>k<length parts.
               fp_partNumber (parts ! k) = int k + 1 \<and> fp_totalParts (parts ! k) = n
               \<and> 0 < fp_size (parts ! k))
         \<and> rangeStart maxPartSize (hd parts) = 0
         \<and> (\<forall>k. Suc k < length parts \<longrightarrow>
               rangeStart maxPartSize (parts ! Suc k) = rangeEnd maxPartSize (parts ! k) + 1)
         \<and> rangeEnd maxPartSize (last parts) = totalSize - 1
         \<and> (\<forall>i j. i < j \<and> j < length parts \<longrightarrow>
               byteRange maxPartSize (parts ! i) \<inter> byteRange maxPartSize (parts ! j) = {})
         \<and> (\<Union>p\<in>set parts. byteRange maxPartSize p) = {0..<totalSize}"
    unfolding Let_def
  proof (intro conjI allI impI)
    show "ceil_div totalSize maxPartSize = \<lceil>real_of_int totalSize / real_of_int maxPartSize\<rceil>"
      by (rule ceil_div_ceiling [OF m])
    show "int (length (splitFileWith maxPartSize totalSize)) = ceil_div totalSize maxPartSize"
      using n1 by (simp add: splitFileWith_length)
    show "rangeStart maxPartSize (hd (splitFileWith maxPartSize totalSize)) = 0"
      by (rule ranges_first_last(2) [OF m t])
    show "rangeEnd maxPartSize (last (splitFileWith maxPartSize totalSize)) = totalSize - 1"
      by (rule ranges_first_last(3) [OF m t])
    show "(\<Union>p\<in>set (splitFileWith maxPartSize totalSize). byteRange maxPartSize p) = {0..<totalSize}"
      by (rule ranges_cover [OF m])
  next
    fix k assume k: "k < length (splitFileWith maxPartSize totalSize)"
    show "fp_partNumber (splitFileWith maxPartSize totalSize ! k) = int k + 1"
      by (rule parts_fields(1) [OF m k])
    show "fp_totalParts (splitFileWith maxPartSize totalSize ! k) = ceil_div totalSize maxPartSize"
      by (rule parts_fields(2) [OF m k])
    show "0 < fp_size (splitFileWith maxPartSize totalSize ! k)"
      by (rule parts_fields(3) [OF m k])
  next
    fix k assume "Suc k < length (splitFileWith maxPartSize totalSize)"
    then show "rangeStart maxPartSize (splitFileWith maxPartSize totalSize ! Suc k)
                 = rangeEnd maxPartSize (splitFileWith maxPartSize totalSize ! k) + 1"
      by (rule ranges_contiguous [OF m])
  next
    fix i j assume "i < j \<and> j < length (splitFileWith maxPartSize totalSize)"
    then show "byteRange maxPartSize (splitFileWith maxPartSize totalSize ! i)
                 \<inter> byteRange maxPartSize (splitFileWith maxPartSize totalSize ! j) = {}"
      using ranges_disjoint [OF m] by blast
  qed
next
  show "splitFile totalSize = splitFileWith 5368709120 totalSize"
    by (simp add: splitFile_def MAX_PART_SIZE_def)
next
  show "map fp_size (splitFile 12000000000) = [5368709120, 5368709120, 1262581760]"
    by (simp add: splitFile_def splitFileWith_closed MAX_PART_SIZE_def ceil_div_def upto_rec1
        mkPart_def)
qed

theorem splitFile_tiles_witness:
  "(0::int) < 12000000000 \<and> (0::int) < 5368709120
   \<and> int (length (splitFileWith 5368709120 12000000000)) = 3
   \<and> rangeEnd 5368709120 (last (splitFileWith 5368709120 12000000000)) = 11999999999
   \<and> (\<Union>p\<in>set (splitFileWith 5368709120 12000000000). byteRange 5368709120 p)
       = {0..<12000000000}"
  using splitFile_tiles [of 12000000000 5368709120]
  by (simp add: Let_def ceil_div_def)

text \<open>
  Claim C9, as the code has it. \<^verbatim>\<open>splitFile\<close> takes the size alone (the part size is the
  positive constant \<^verbatim>\<open>MAX_PART_SIZE\<close>) and validates nothing: for a size that is zero or
  negative its loop body never runs and it returns the empty list of parts.
\<close>

theorem splitFile_nonpositive_size_empty:
  "fileSize \<le> 0 \<Longrightarrow> splitFile_outcome fileSize = Inr []"
  by (simp add: splitFile_outcome_def splitFile_nonpos)

theorem splitFile_nonpositive_size_empty_witness:
  "(- 7 :: int) \<le> 0 \<and> splitFile_outcome (- 7) = Inr []"
  using splitFile_nonpositive_size_empty [of "- 7"] by simp

text \<open>
  Claim C9 as stated fails at the size 0: the call returns a part list (the empty one), it
  does not fail with \<open>InvalidInputError\<close>.
\<close>

theorem splitFile_zero_size_counterexample:
  "splitFile_outcome 0 = Inr [] \<and> splitFile_outcome 0 \<noteq> Inl InvalidInputError"
  by (simp add: splitFile_outcome_def splitFile_nonpos)

section \<open>The unlock token store\<close>

text \<open>
  Claim C6. A grant with \<open>watchedMs < 5000\<close> returns false and leaves the token table as it
  is, so a pair that was locked at an instant stays locked at it. A grant with
  \<open>watchedMs \<ge> 5000\<close> returns true and stores for the pair the token that expires at
  \<open>now + 3600000\<close>, whatever was stored before, and changes no other pair; from then on the
  pair is unlocked at every instant before that expiry and locked at every instant from it
  on.
\<close>

theorem grant_then_unlocked:
  "(watchedMs < 5000 \<longrightarrow>
      trackAdWatch tbl now sessionId resourceKey watchedMs = (False, tbl)
      \<and> (\<forall>t. \<not> isUnlocked tbl t sessionId resourceKey \<longrightarrow>
             \<not> isUnlocked (snd (trackAdWatch tbl now sessionId resourceKey watchedMs)) t
                 sessionId resourceKey))
   \<and> (5000 \<le> watchedMs \<longrightarrow>
        (let granted = trackAdWatch tbl now sessionId resourceKey watchedMs
         in fst granted = True
          \<and> snd granted (sessionId, resourceKey)
              = Some \<lparr>au_sessionId = sessionId, au_url = resourceKey, au_unlockedAt = now,
                      au_expiresAt = now + 3600000\<rparr>
          \<and> (\<forall>other. other \<noteq> (sessionId, resourceKey) \<longrightarrow> snd granted other = tbl other)
          \<and> (\<forall>t. t < now + 3600000 \<longrightarrow> isUnlocked (snd granted) t sessionId resourceKey)
          \<and> (\<forall>t. now + 3600000 \<le> t \<longrightarrow> \<not> isUnlocked (snd granted) t sessionId resourceKey)))"
  by (simp add: trackAdWatch_def isUnlocked_def MIN_WATCH_TIME_def UNLOCK_DURATION_def Let_def)

text \<open>The theorem at a rejected and at an accepted grant.\<close>

theorem grant_then_unlocked_witness:
  "(4999 :: int) < 5000
   \<and> \<not> isUnlocked Map.empty 20 ''s'' ''u#part1''
   \<and> \<not> isUnlocked (snd (trackAdWatch Map.empty 10 ''s'' ''u#part1'' 4999)) 20 ''s'' ''u#part1''
   \<and> (5000 :: int) \<le> 6000
   \<and> (''t'', ''u#part1'') \<noteq> (''s'', ''u#part1'')
   \<and> (3600009 :: int) < 10 + 3600000 \<and> (10 :: int) + 3600000 \<le> 3600010
   \<and> fst (trackAdWatch Map.empty 10 ''s'' ''u#part1'' 6000)
   \<and> snd (trackAdWatch Map.empty 10 ''s'' ''u#part1'' 6000) (''t'', ''u#part1'') = None
   \<and> isUnlocked (snd (trackAdWatch Map.empty 10 ''s'' ''u#part1'' 6000)) 3600009 ''s'' ''u#part1''
   \<and> \<not> isUnlocked (snd (trackAdWatch Map.empty 10 ''s'' ''u#part1'' 6000)) 3600010 ''s'' ''u#part1''"
  using grant_then_unlocked [of 4999 Map.empty 10 "''s''" "''u#part1''"]
    grant_then_unlocked [of 6000 Map.empty 10 "''s''" "''u#part1''"]
  by (simp add: Let_def isUnlocked_def)

section \<open>The address counter\<close>



lemma checkAddressRate_cases:
  "checkAddressRate now h c = (r, c') \<Longrightarrow> r = None \<or> r = Some tooManyRequests"
  by (auto simp: checkAddressRate_def tooManyRequests_def Let_def split: prod.splits if_splits)




section \<open>The gates of the handler\<close>

lemma POST_invalid: "\<not> validUrl req \<Longrightarrow> POST net now req s = (invalidUrl, s)"
  by (simp add: POST_def validUrl_def invalidUrl_def split: option.splits)

lemma POST_address_denied:
  assumes "validUrl req" "\<not> addressAdmitted now req s"
  shows "POST net now req s
           = (tooManyRequests,
              s\<lparr>rate_limit := snd (checkAddressRate now (req_forwardedFor req) (rate_limit s))\<rparr>)"
proof -
  obtain r c where car: "checkAddressRate now (req_forwardedFor req) (rate_limit s) = (r, c)"
    by (cases "checkAddressRate now (req_forwardedFor req) (rate_limit s)")
  with assms(2) checkAddressRate_cases [OF car] have "r = Some tooManyRequests"
    by (auto simp: addressAdmitted_def)
  with assms(1) car show ?thesis
    by (auto simp: POST_def validUrl_def checkDownloadLimit_def split: option.splits)
qed

lemma POST_fast_locked:
  assumes "validUrl req" "addressAdmitted now req s"
    "req_downloadSpeed req = ''fast''" "\<not> unlockedFor s now req"
  shows "POST net now req s
           = (unlockRequired,
              s\<lparr>rate_limit := snd (checkAddressRate now (req_forwardedFor req) (rate_limit s))\<rparr>)"
proof -
  obtain r c where car: "checkAddressRate now (req_forwardedFor req) (rate_limit s) = (r, c)"
    by (cases "checkAddressRate now (req_forwardedFor req) (rate_limit s)")
  with assms(2) have "r = None" by (simp add: addressAdmitted_def)
  with assms(1,3,4) car show ?thesis
    by (auto simp: POST_def validUrl_def checkDownloadLimit_def unlockedFor_def checkFastUnlock_def
        unlockRequired_def Let_def split: option.splits)
qed

lemma checkLimit_count:
  "checkLimit defaultConfig tbl now sid =
     \<lparr>allowed = downloadCount tbl sid (now - 3600000) now < 3,
      remaining = max 0 (3 - downloadCount tbl sid (now - 3600000) now)\<rparr>"
  by (auto simp: checkLimit_def defaultConfig_def Let_def)

lemma POST_quota_denied:
  assumes "validUrl req" "addressAdmitted now req s"
    "\<not> (req_downloadSpeed req = ''fast'' \<and> \<not> unlockedFor s now req)"
    "req_mode req = ''history''"
    "\<not> allowed (checkLimit defaultConfig (downloadHistory s) now (req_sessionId req))"
  shows "POST net now req s
           = (quotaExceeded (remaining (checkLimit defaultConfig (downloadHistory s) now
                                          (req_sessionId req))),
              s\<lparr>rate_limit := snd (checkAddressRate now (req_forwardedFor req) (rate_limit s))\<rparr>)"
proof -
  obtain r c where car: "checkAddressRate now (req_forwardedFor req) (rate_limit s) = (r, c)"
    by (cases "checkAddressRate now (req_forwardedFor req) (rate_limit s)")
  with assms(2) have "r = None" by (simp add: addressAdmitted_def)
  with assms(1,3,4,5) car show ?thesis
    by (auto simp: POST_def validUrl_def checkDownloadLimit_def unlockedFor_def checkFastUnlock_def
        checkHistoryLimit_def quotaExceeded_def Let_def split: option.splits)
qed

lemma handleMiss_status:
  assumes "handleMiss net now req url s = (Inr r, s')"
  shows "status r = 200"
  using assms
  by (auto simp: handleMiss_def strictEqualsString_def serveBySize_def wholeFile_def
      partBranch_def largeFileBranch_def Let_def
      split: prod.splits sum.splits option.splits if_splits)

lemma POST_status:
  "status (fst (POST net now req s)) \<in> {200, 400, 403, 429, 500}"
proof (cases "validUrl req")
  case False
  then show ?thesis by (simp add: POST_invalid invalidUrl_def)
next
  case valid: True
  show ?thesis
  proof (cases "addressAdmitted now req s")
    case False
    with valid show ?thesis by (simp add: POST_address_denied tooManyRequests_def)
  next
    case True
    obtain r c where car: "checkAddressRate now (req_forwardedFor req) (rate_limit s) = (r, c)"
      by (cases "checkAddressRate now (req_forwardedFor req) (rate_limit s)")
    with True have rn: "r = None" by (simp add: addressAdmitted_def)
    from valid obtain url where url: "req_url req = Some url" "url \<noteq> []"
      by (auto simp: validUrl_def split: option.splits)
    show ?thesis
      using url car rn
      by (auto simp: POST_def checkDownloadLimit_def checkFastUnlock_def checkHistoryLimit_def
          Let_def dest: handleMiss_status split: option.splits sum.splits prod.splits)
  qed
qed

lemma POST_403_only_locked:
  assumes "status (fst (POST net now req s)) = 403"
  shows "req_downloadSpeed req = ''fast'' \<and> \<not> unlockedFor s now req"
proof (cases "validUrl req")
  case False
  with assms show ?thesis by (simp add: POST_invalid invalidUrl_def)
next
  case valid: True
  show ?thesis
  proof (cases "addressAdmitted now req s")
    case False
    with valid assms show ?thesis by (simp add: POST_address_denied tooManyRequests_def)
  next
    case True
    obtain r c where car: "checkAddressRate now (req_forwardedFor req) (rate_limit s) = (r, c)"
      by (cases "checkAddressRate now (req_forwardedFor req) (rate_limit s)")
    with True have rn: "r = None" by (simp add: addressAdmitted_def)
    from valid obtain url where url: "req_url req = Some url" "url \<noteq> []"
      by (auto simp: validUrl_def split: option.splits)
    show ?thesis
      using url car rn assms
      by (auto simp: POST_def checkDownloadLimit_def checkFastUnlock_def checkHistoryLimit_def
          unlockedFor_def Let_def dest: handleMiss_status
          split: option.splits sum.splits prod.splits if_splits)
  qed
qed



section \<open>The session quota\<close>

lemma http_history:
  "http net call (s\<lparr>downloadHistory := tbl\<rparr>) = withHistory tbl (http net call s)"
  by (simp add: http_def withHistory_def)

lemma detectContentType_history:
  "detectContentType net url (s\<lparr>downloadHistory := tbl\<rparr>)
     = withHistory tbl (detectContentType net url s)"
  by (simp add: detectContentType_def http_def withHistory_def Let_def
      split: sum.split prod.split)

lemma getFileSize_history:
  "getFileSize net now url (s\<lparr>downloadHistory := tbl\<rparr>)
     = withHistory tbl (getFileSize net now url s)"
  by (simp add: getFileSize_def http_def withHistory_def Let_def
      split: sum.split prod.split option.split)

lemma downloadPart_history:
  "downloadPart net now part sid slow (s\<lparr>downloadHistory := tbl\<rparr>)
     = withHistory tbl (downloadPart net now part sid slow s)"
  by (simp add: downloadPart_def http_def withHistory_def Let_def
      split: sum.split prod.split option.split)

lemma wholeFile_history:
  "req_mode req \<noteq> ''history'' \<Longrightarrow>
   wholeFile net now req url ct (s\<lparr>downloadHistory := tbl\<rparr>)
     = withHistory tbl (wholeFile net now req url ct s)"
  by (simp add: wholeFile_def http_def withHistory_def Let_def split: sum.split prod.split)

lemma partBranch_history:
  "req_mode req \<noteq> ''history'' \<Longrightarrow>
   partBranch net now req url ct sz n (s\<lparr>downloadHistory := tbl\<rparr>)
     = withHistory tbl (partBranch net now req url ct sz n s)"
  by (simp add: partBranch_def downloadPart_history withHistory_def Let_def
      split: sum.split prod.split)

lemma serveBySize_history:
  "req_mode req \<noteq> ''history'' \<Longrightarrow>
   serveBySize net now req url ct fileSize (s\<lparr>downloadHistory := tbl\<rparr>)
     = withHistory tbl (serveBySize net now req url ct fileSize s)"
  by (simp add: serveBySize_def wholeFile_history partBranch_history largeFileBranch_def
      withHistory_def Let_def split: option.split)

lemma handleMiss_history:
  "req_mode req \<noteq> ''history'' \<Longrightarrow>
   handleMiss net now req url (s\<lparr>downloadHistory := tbl\<rparr>)
     = withHistory tbl (handleMiss net now req url s)"
  by (simp add: handleMiss_def strictEqualsString_def detectContentType_history
      getFileSize_history serveBySize_history withHistory_def
      split: sum.split prod.split)

lemma update_commute:
  "s\<lparr>downloadHistory := tbl, rate_limit := c\<rparr> = s\<lparr>rate_limit := c, downloadHistory := tbl\<rparr>"
  by (cases s) simp

lemma POST_history:
  assumes "req_mode req \<noteq> ''history''"
  shows "POST net now req (s\<lparr>downloadHistory := tbl\<rparr>) = withHistory tbl (POST net now req s)"
proof -
  have hm: "\<And>url c. handleMiss net now req url (s\<lparr>downloadHistory := tbl, rate_limit := c\<rparr>)
      = withHistory tbl (handleMiss net now req url (s\<lparr>rate_limit := c\<rparr>))"
  proof -
    fix url c
    show "handleMiss net now req url (s\<lparr>downloadHistory := tbl, rate_limit := c\<rparr>)
      = withHistory tbl (handleMiss net now req url (s\<lparr>rate_limit := c\<rparr>))"
      unfolding update_commute [where s = s and tbl = tbl and c = c]
      by (rule handleMiss_history [OF assms])
  qed
  show ?thesis
    using assms
    by (simp add: POST_def checkDownloadLimit_def checkFastUnlock_def checkHistoryLimit_def
        hm withHistory_def Let_def split: option.split sum.split prod.split)
qed

lemma three_in_window:
  assumes "\<forall>r\<in>set tbl. dh_sessionId r \<noteq> sid" "ta \<le> tb" "tb \<le> tc" "tc \<le> now"
  shows "downloadCount
           (rateLimiter_recordDownload
              (rateLimiter_recordDownload (rateLimiter_recordDownload tbl ta sid ua ia) tb sid ub ib)
              tc sid uc ic) sid w now
         = (if w \<le> ta then 1 else 0) + (if w \<le> tb then 1 else 0) + (if w \<le> tc then 1 else 0)"
proof -
  have "filter (\<lambda>r. dh_sessionId r = sid \<and> w \<le> dh_timestamp r \<and> dh_timestamp r \<le> now) tbl = []"
    using assms(1) by (simp add: filter_empty_conv)
  then show ?thesis
    using assms(2-4) by (simp add: downloadCount_def rateLimiter_recordDownload_def)
qed

text \<open>
  Claim C5. \<^verbatim>\<open>checkLimit\<close> returns \<open>remaining = max 0 (3 - count)\<close> and
  \<open>allowed = (count < 3)\<close>, where \<open>count\<close> is the number of rows of the session with a
  timestamp in \<open>[now - 3600000, now]\<close>. The handler consults it in history mode only: in
  any other mode the gate passes and the response does not depend on the history table. In
  history mode a session that is not allowed is rejected without any other effect than the
  address counter, by the quota rejection with \<open>remaining = 0\<close> unless an earlier gate
  rejects it first. With three downloads of a session recorded at \<open>ta \<le> tb \<le> tc \<le> now\<close>, all
  within the last hour, nothing remains and the session is not allowed; once the oldest has
  left the window and the other two have not, one remains and the session is allowed.
\<close>

theorem session_quota_sliding_window:
  "(let cnt = int (length (filter (\<lambda>r. dh_sessionId r = sid \<and> now - 3600000 \<le> dh_timestamp r
                                       \<and> dh_timestamp r \<le> now) tbl));
        res = checkLimit defaultConfig tbl now sid
    in remaining res = max 0 (3 - cnt) \<and> allowed res = (cnt < 3))
   \<and> (req_mode req \<noteq> ''history'' \<longrightarrow>
        checkHistoryLimit now req s = None
        \<and> fst (POST net now req (s\<lparr>downloadHistory := tbl\<rparr>)) = fst (POST net now req s))
   \<and> (req_mode req = ''history'' \<longrightarrow>
        checkHistoryLimit now req s
          = (let res = checkLimit defaultConfig (downloadHistory s) now (req_sessionId req)
             in if allowed res then None else Some (quotaExceeded (remaining res))))
   \<and> (req_mode req = ''history''
        \<and> \<not> allowed (checkLimit defaultConfig (downloadHistory s) now (req_sessionId req)) \<longrightarrow>
        remaining (checkLimit defaultConfig (downloadHistory s) now (req_sessionId req)) = 0
        \<and> snd (POST net now req s) = s\<lparr>rate_limit := rate_limit (snd (POST net now req s))\<rparr>
        \<and> fst (POST net now req s)
            = (if \<not> validUrl req then invalidUrl
               else if \<not> addressAdmitted now req s then tooManyRequests
               else if req_downloadSpeed req = ''fast'' \<and> \<not> unlockedFor s now req then unlockRequired
               else quotaExceeded 0))
   \<and> ((\<forall>r\<in>set tbl. dh_sessionId r \<noteq> sid) \<and> ta \<le> tb \<and> tb \<le> tc \<and> tc \<le> now \<longrightarrow>
        (let recorded = rateLimiter_recordDownload
                      (rateLimiter_recordDownload (rateLimiter_recordDownload tbl ta sid ua ia)
                         tb sid ub ib) tc sid uc ic
         in (now - 3600000 \<le> ta \<longrightarrow>
               checkLimit defaultConfig recorded now sid = \<lparr>allowed = False, remaining = 0\<rparr>)
          \<and> (ta < now - 3600000 \<and> now - 3600000 \<le> tb \<longrightarrow>
               checkLimit defaultConfig recorded now sid = \<lparr>allowed = True, remaining = 1\<rparr>)))"
proof (intro conjI impI)
  show "let cnt = int (length (filter (\<lambda>r. dh_sessionId r = sid \<and> now - 3600000 \<le> dh_timestamp r
                                       \<and> dh_timestamp r \<le> now) tbl));
        res = checkLimit defaultConfig tbl now sid
    in remaining res = max 0 (3 - cnt) \<and> allowed res = (cnt < 3)"
    by (simp add: checkLimit_count downloadCount_def Let_def)
next
  assume "req_mode req \<noteq> ''history''"
  then show "checkHistoryLimit now req s = None"
    and "fst (POST net now req (s\<lparr>downloadHistory := tbl\<rparr>)) = fst (POST net now req s)"
    by (simp_all add: checkHistoryLimit_def POST_history withHistory_def)
next
  assume "req_mode req = ''history''"
  then show "checkHistoryLimit now req s
          = (let res = checkLimit defaultConfig (downloadHistory s) now (req_sessionId req)
             in if allowed res then None else Some (quotaExceeded (remaining res)))"
    by (simp add: checkHistoryLimit_def quotaExceeded_def Let_def)
next
  assume a: "req_mode req = ''history''
        \<and> \<not> allowed (checkLimit defaultConfig (downloadHistory s) now (req_sessionId req))"
  then have zero: "remaining (checkLimit defaultConfig (downloadHistory s) now (req_sessionId req)) = 0"
    by (simp add: checkLimit_count)
  then show "remaining (checkLimit defaultConfig (downloadHistory s) now (req_sessionId req)) = 0" .
  have both: "snd (POST net now req s) = s\<lparr>rate_limit := rate_limit (snd (POST net now req s))\<rparr>
        \<and> fst (POST net now req s)
            = (if \<not> validUrl req then invalidUrl
               else if \<not> addressAdmitted now req s then tooManyRequests
               else if req_downloadSpeed req = ''fast'' \<and> \<not> unlockedFor s now req then unlockRequired
               else quotaExceeded 0)"
  proof (cases "validUrl req")
    case False
    then show ?thesis by (simp add: POST_invalid)
  next
    case valid: True
    show ?thesis
    proof (cases "addressAdmitted now req s")
      case False
      with valid show ?thesis by (simp add: POST_address_denied)
    next
      case adm: True
      show ?thesis
      proof (cases "req_downloadSpeed req = ''fast'' \<and> \<not> unlockedFor s now req")
        case True
        with valid adm show ?thesis by (simp add: POST_fast_locked)
      next
        case False
        with valid adm a zero show ?thesis by (auto simp: POST_quota_denied)
      qed
    qed
  qed
  from both show "snd (POST net now req s) = s\<lparr>rate_limit := rate_limit (snd (POST net now req s))\<rparr>"
    by simp
  from both show "fst (POST net now req s)
            = (if \<not> validUrl req then invalidUrl
               else if \<not> addressAdmitted now req s then tooManyRequests
               else if req_downloadSpeed req = ''fast'' \<and> \<not> unlockedFor s now req then unlockRequired
               else quotaExceeded 0)"
    by simp
next
  assume a: "(\<forall>r\<in>set tbl. dh_sessionId r \<noteq> sid) \<and> ta \<le> tb \<and> tb \<le> tc \<and> tc \<le> now"
  then have cnt: "\<And>w. downloadCount
           (rateLimiter_recordDownload
              (rateLimiter_recordDownload (rateLimiter_recordDownload tbl ta sid ua ia) tb sid ub ib)
              tc sid uc ic) sid w now
         = (if w \<le> ta then 1 else 0) + (if w \<le> tb then 1 else 0) + (if w \<le> tc then 1 else 0)"
    by (intro three_in_window) simp_all
  show "let recorded = rateLimiter_recordDownload
                      (rateLimiter_recordDownload (rateLimiter_recordDownload tbl ta sid ua ia)
                         tb sid ub ib) tc sid uc ic
         in (now - 3600000 \<le> ta \<longrightarrow>
               checkLimit defaultConfig recorded now sid = \<lparr>allowed = False, remaining = 0\<rparr>)
          \<and> (ta < now - 3600000 \<and> now - 3600000 \<le> tb \<longrightarrow>
               checkLimit defaultConfig recorded now sid = \<lparr>allowed = True, remaining = 1\<rparr>)"
    using a by (simp add: Let_def checkLimit_count cnt)
qed

text \<open>
  The theorem at three downloads recorded at 0, 1000 and 2000, checked at 3000 and at
  3600500.
\<close>

theorem session_quota_sliding_window_witness:
  "checkLimit defaultConfig threeRecords 3000 ''s1'' = \<lparr>allowed = False, remaining = 0\<rparr>
   \<and> checkLimit defaultConfig threeRecords 3600500 ''s1'' = \<lparr>allowed = True, remaining = 1\<rparr>
   \<and> fst (POST noNetwork 3000 (demoRequest ''history'' ''slow'' None)
            (emptyState\<lparr>downloadHistory := threeRecords\<rparr>)) = quotaExceeded 0
   \<and> checkHistoryLimit 3600500 (demoRequest ''history'' ''slow'' None)
        (emptyState\<lparr>downloadHistory := threeRecords\<rparr>) = None
   \<and> fst (POST noNetwork 3000 (demoRequest ''normal'' ''slow'' None)
            (emptyState\<lparr>downloadHistory := threeRecords\<rparr>))
       = fst (POST noNetwork 3000 (demoRequest ''normal'' ''slow'' None) emptyState)"
  using session_quota_sliding_window [where sid = "''s1''" and now = 3000 and tbl = "[]"
      and ta = 0 and tb = 1000 and tc = 2000
      and ua = "''http://h/a''" and ub = "''http://h/b''" and uc = "''http://h/c''"
      and ia = "''file''" and ib = "''file''" and ic = "''file''"
      and req = "demoRequest ''history'' ''slow'' None"
      and s = "emptyState\<lparr>downloadHistory := threeRecords\<rparr>" and net = noNetwork]
    session_quota_sliding_window [where sid = "''s1''" and now = 3600500 and tbl = "[]"
      and ta = 0 and tb = 1000 and tc = 2000
      and ua = "''http://h/a''" and ub = "''http://h/b''" and uc = "''http://h/c''"
      and ia = "''file''" and ib = "''file''" and ic = "''file''"
      and req = "demoRequest ''history'' ''slow'' None"
      and s = "emptyState\<lparr>downloadHistory := threeRecords\<rparr>" and net = noNetwork]
    session_quota_sliding_window [where sid = "''s1''" and now = 3000 and tbl = threeRecords
      and req = "demoRequest ''normal'' ''slow'' None" and s = emptyState and net = noNetwork]
  by (simp add: threeRecords_def [symmetric] Let_def demoRequest_def validUrl_def
      addressAdmitted_def checkAddressRate_def clientAddress_def redis_incr_def redis_expire_def
      live_def emptyState_def)

section \<open>The paths past the gates\<close>

lemma recordHistory_throws:
  "recordHistory now req key contentType s = Inl PrismaClientValidationError"
  by (simp add: recordHistory_def rateLimiter_recordDownload_call_def)

lemma detectContentType_frame:
  "file_size_cache (snd (detectContentType net url s)) = file_size_cache s"
  "file_part_cache (snd (detectContentType net url s)) = file_part_cache s"
  "userDownloads (snd (detectContentType net url s)) = userDownloads s"
  by (simp_all add: detectContentType_def http_def Let_def split: sum.split prod.split)

lemma getFileSize_miss:
  assumes "redis_get now (file_size_cache s) url = None" "\<forall>k. net k (Head url) = Inr h"
  shows "fst (getFileSize net now url s) = Inr (content_length h)"
    and "file_part_cache (snd (getFileSize net now url s)) = file_part_cache s"
    and "userDownloads (snd (getFileSize net now url s)) = userDownloads s"
  using assms by (simp_all add: getFileSize_def http_def Let_def)

lemma wholeFile_ok:
  assumes "req_mode req \<noteq> ''history''"
    "\<forall>k. net k (Get url (req_downloadSpeed req = ''slow'')) = Inr r"
  shows "fst (wholeFile net now req url ct s)
           = Inr (FileResponse (data r) ''downloaded_file.[object Object]'')"
    and "userDownloads (snd (wholeFile net now req url ct s))
           = downloadLimiter_recordDownload (userDownloads s) now (req_sessionId req) url ''file'' None"
    and "downloadHistory (snd (wholeFile net now req url ct s)) = downloadHistory s"
  using assms by (simp_all add: wholeFile_def http_def Let_def)

lemma wholeFile_history_throws:
  assumes "req_mode req = ''history''"
  shows "\<exists>e. fst (wholeFile net now req url ct s) = Inl e"
    and "sameRecords s (snd (wholeFile net now req url ct s))"
  using assms
  by (simp_all add: wholeFile_def http_def recordHistory_throws sameRecords_def split: sum.split)

lemma partBranch_ok:
  assumes "req_mode req \<noteq> ''history''"
    "redis_get now (file_part_cache s) (partUrl url (Some n)) = None"
    "\<forall>k. net k (GetRange url ((n - 1) * MAX_PART_SIZE) ((n - 1) * MAX_PART_SIZE + MAX_SIZE - 1)
               (req_downloadSpeed req = ''slow'')) = Inr r"
  shows "fst (partBranch net now req url ct sz n s)
           = Inr (FileResponse (data r) (''part_'' @ showInt n @ ''.zip''))"
    and "userDownloads (snd (partBranch net now req url ct sz n s))
           = downloadLimiter_recordDownload (userDownloads s) now (req_sessionId req) url ''part''
               (Some n)"
    and "downloadHistory (snd (partBranch net now req url ct sz n s)) = downloadHistory s"
  using assms
  by (simp_all add: partBranch_def downloadPart_def downloadKey_def requestedPart_def partUrl_def
      showPartSize_def http_def Let_def)

lemma partBranch_history_throws:
  assumes "req_mode req = ''history''"
  shows "\<exists>e. fst (partBranch net now req url ct sz n s) = Inl e"
    and "sameRecords s (snd (partBranch net now req url ct sz n s))"
  using assms
  by (simp_all add: partBranch_def downloadPart_def http_def recordHistory_throws sameRecords_def
      Let_def split: sum.split option.split)

lemma handleMiss_whole_ok:
  assumes "req_mode req \<noteq> ''history''"
    "redis_get now (file_size_cache s) url = None"
    "\<forall>k. net k (Head url) = Inr h"
    "\<forall>sz. content_length h = Some sz \<longrightarrow> sz \<le> MAX_SIZE"
    "\<forall>k. net k (Get url (req_downloadSpeed req = ''slow'')) = Inr r"
  shows "fst (handleMiss net now req url s)
           = Inr (FileResponse (data r) ''downloaded_file.[object Object]'')"
    and "userDownloads (snd (handleMiss net now req url s))
           = downloadLimiter_recordDownload (userDownloads s) now (req_sessionId req) url ''file'' None"
proof -
  obtain ct s1 where d: "detectContentType net url s = (ct, s1)"
    by (cases "detectContentType net url s")
  have c1: "file_size_cache s1 = file_size_cache s" and u1: "userDownloads s1 = userDownloads s"
    using detectContentType_frame(1,3) [of net url s] d by simp_all
  obtain fs s2 where g: "getFileSize net now url s1 = (fs, s2)"
    by (cases "getFileSize net now url s1")
  have miss: "redis_get now (file_size_cache s1) url = None" using assms(2) c1 by simp
  have fs: "fs = Inr (content_length h)" and u2: "userDownloads s2 = userDownloads s"
    using getFileSize_miss(1,3) [where net = net and h = h and now = now and url = url and s = s1]
      miss assms(3) g u1 by simp_all
  have small: "serveBySize net now req url ct (content_length h) s2
                 = wholeFile net now req url ct s2"
    using assms(4) by (cases "content_length h") (simp_all add: serveBySize_def)
  have hm: "handleMiss net now req url s = wholeFile net now req url ct s2"
    unfolding handleMiss_def d by (simp add: strictEqualsString_def g fs small)
  show "fst (handleMiss net now req url s)
           = Inr (FileResponse (data r) ''downloaded_file.[object Object]'')"
    unfolding hm
    using wholeFile_ok(1) [where net = net and req = req and url = url and r = r and now = now
        and ct = ct and s = s2] assms(1,5) by simp
  show "userDownloads (snd (handleMiss net now req url s))
           = downloadLimiter_recordDownload (userDownloads s) now (req_sessionId req) url ''file'' None"
    unfolding hm
    using wholeFile_ok(2) [where net = net and req = req and url = url and r = r and now = now
        and ct = ct and s = s2] assms(1,5) u2 by simp
qed

lemma handleMiss_part_ok:
  assumes "req_mode req \<noteq> ''history''"
    "redis_get now (file_size_cache s) url = None"
    "\<forall>k. net k (Head url) = Inr h"
    "content_length h = Some sz" "MAX_SIZE < sz"
    "req_partSize req = Some n" "n \<noteq> 0"
    "redis_get now (file_part_cache s) (partUrl url (Some n)) = None"
    "\<forall>k. net k (GetRange url ((n - 1) * MAX_PART_SIZE) ((n - 1) * MAX_PART_SIZE + MAX_SIZE - 1)
               (req_downloadSpeed req = ''slow'')) = Inr r"
  shows "fst (handleMiss net now req url s)
           = Inr (FileResponse (data r) (''part_'' @ showInt n @ ''.zip''))"
    and "userDownloads (snd (handleMiss net now req url s))
           = downloadLimiter_recordDownload (userDownloads s) now (req_sessionId req) url ''part''
               (Some n)"
proof -
  obtain ct s1 where d: "detectContentType net url s = (ct, s1)"
    by (cases "detectContentType net url s")
  have c1: "file_size_cache s1 = file_size_cache s" and p1: "file_part_cache s1 = file_part_cache s"
    and u1: "userDownloads s1 = userDownloads s"
    using detectContentType_frame [of net url s] d by simp_all
  obtain fs s2 where g: "getFileSize net now url s1 = (fs, s2)"
    by (cases "getFileSize net now url s1")
  have miss: "redis_get now (file_size_cache s1) url = None" using assms(2) c1 by simp
  have fs: "fs = Inr (Some sz)" and p2: "file_part_cache s2 = file_part_cache s"
    and u2: "userDownloads s2 = userDownloads s"
    using getFileSize_miss [where net = net and h = h and now = now and url = url and s = s1]
      miss assms(3) g p1 u1 assms(4) by simp_all
  have pm: "redis_get now (file_part_cache s2) (partUrl url (Some n)) = None"
    using assms(8) p2 by simp
  have hm: "handleMiss net now req url s = partBranch net now req url ct sz n s2"
    unfolding handleMiss_def d
    using assms(5,6,7) by (simp add: strictEqualsString_def g fs serveBySize_def)
  show "fst (handleMiss net now req url s)
           = Inr (FileResponse (data r) (''part_'' @ showInt n @ ''.zip''))"
    unfolding hm
    using partBranch_ok(1) [where net = net and req = req and url = url and r = r and now = now
        and ct = ct and s = s2 and n = n and sz = sz] assms(1,9) pm by simp
  show "userDownloads (snd (handleMiss net now req url s))
           = downloadLimiter_recordDownload (userDownloads s) now (req_sessionId req) url ''part''
               (Some n)"
    unfolding hm
    using partBranch_ok(2) [where net = net and req = req and url = url and r = r and now = now
        and ct = ct and s = s2 and n = n and sz = sz] assms(1,9) pm u2 by simp
qed

lemma POST_past_gates:
  assumes "validUrl req" "addressAdmitted now req s"
    "req_downloadSpeed req = ''fast'' \<longrightarrow> unlockedFor s now req"
    "req_mode req \<noteq> ''history''"
    "req_url req = Some url" "redis_get now (file_info_cache s) url = None"
  shows "POST net now req s
           = (case handleMiss net now req url
                     (s\<lparr>rate_limit := snd (checkAddressRate now (req_forwardedFor req) (rate_limit s))\<rparr>) of
                (Inl e, s2) \<Rightarrow> (ErrorResponse 500 ''Download failed'' None, s2)
              | (Inr r, s2) \<Rightarrow> (r, s2))"
proof -
  obtain r c where car: "checkAddressRate now (req_forwardedFor req) (rate_limit s) = (r, c)"
    by (cases "checkAddressRate now (req_forwardedFor req) (rate_limit s)")
  with assms(2) have "r = None" by (simp add: addressAdmitted_def)
  with assms(1,3,4,5,6) car show ?thesis
    by (auto simp: POST_def validUrl_def checkDownloadLimit_def unlockedFor_def checkFastUnlock_def
        checkHistoryLimit_def Let_def split: option.splits)
qed

section \<open>The unlock gate of the fast path\<close>

lemma grant_unlocks:
  assumes "req_url req = Some url" "granted \<le> now" "now < granted + 3600000"
  shows "fst (trackAdWatch (adUnlock s) granted (req_sessionId req)
                (partUrl url (req_partSize req)) 6000)"
    and "unlockedFor
           (s\<lparr>adUnlock := snd (trackAdWatch (adUnlock s) granted (req_sessionId req)
                                   (partUrl url (req_partSize req)) 6000)\<rparr>) now req"
  using assms
  by (simp_all add: trackAdWatch_def unlockedFor_def isUnlocked_def MIN_WATCH_TIME_def
      UNLOCK_DURATION_def Let_def)

lemma POST_unlocked_whole:
  assumes "req_url req = Some url" "url \<noteq> []" "req_downloadSpeed req = ''fast''"
    "unlockedFor s now req" "req_mode req \<noteq> ''history''" "addressAdmitted now req s"
    "redis_get now (file_info_cache s) url = None" "redis_get now (file_size_cache s) url = None"
    "\<forall>k. net k (Head url) = Inr h" "\<forall>sz. content_length h = Some sz \<longrightarrow> sz \<le> MAX_SIZE"
    "\<forall>k. net k (Get url False) = Inr r"
  shows "fst (POST net now req s) = FileResponse (data r) ''downloaded_file.[object Object]''"
proof -
  let ?s1 = "s\<lparr>rate_limit := snd (checkAddressRate now (req_forwardedFor req) (rate_limit s))\<rparr>"
  have valid: "validUrl req" using assms(1,2) by (simp add: validUrl_def)
  have get: "\<forall>k. net k (Get url (req_downloadSpeed req = ''slow'')) = Inr r"
    using assms(3,11) by simp
  have miss: "redis_get now (file_size_cache ?s1) url = None" using assms(8) by simp
  have "fst (handleMiss net now req url ?s1)
          = Inr (FileResponse (data r) ''downloaded_file.[object Object]'')"
    using handleMiss_whole_ok(1) [where net = net and req = req and url = url and r = r
        and now = now and s = ?s1 and h = h] assms(5,9,10) miss get by simp
  then show ?thesis
    using POST_past_gates [where net = net, OF valid assms(6) _ assms(5) assms(1) assms(7)] assms(4)
    by (cases "handleMiss net now req url ?s1") simp
qed

lemma POST_unlocked_part:
  assumes "req_url req = Some url" "url \<noteq> []" "req_downloadSpeed req = ''fast''"
    "unlockedFor s now req" "req_mode req \<noteq> ''history''" "addressAdmitted now req s"
    "redis_get now (file_info_cache s) url = None" "redis_get now (file_size_cache s) url = None"
    "\<forall>k. net k (Head url) = Inr h" "content_length h = Some sz" "MAX_SIZE < sz"
    "req_partSize req = Some n" "n \<noteq> 0"
    "redis_get now (file_part_cache s) (partUrl url (Some n)) = None"
    "\<forall>k. net k (GetRange url ((n - 1) * MAX_PART_SIZE) ((n - 1) * MAX_PART_SIZE + MAX_SIZE - 1)
               False) = Inr r"
  shows "fst (POST net now req s) = FileResponse (data r) (''part_'' @ showInt n @ ''.zip'')"
proof -
  let ?s1 = "s\<lparr>rate_limit := snd (checkAddressRate now (req_forwardedFor req) (rate_limit s))\<rparr>"
  have valid: "validUrl req" using assms(1,2) by (simp add: validUrl_def)
  have get: "\<forall>k. net k (GetRange url ((n - 1) * MAX_PART_SIZE)
               ((n - 1) * MAX_PART_SIZE + MAX_SIZE - 1) (req_downloadSpeed req = ''slow'')) = Inr r"
    using assms(3,15) by simp
  have miss: "redis_get now (file_size_cache ?s1) url = None" using assms(8) by simp
  have pmiss: "redis_get now (file_part_cache ?s1) (partUrl url (Some n)) = None"
    using assms(14) by simp
  have "fst (handleMiss net now req url ?s1)
          = Inr (FileResponse (data r) (''part_'' @ showInt n @ ''.zip''))"
    using handleMiss_part_ok(1) [where net = net and req = req and url = url and r = r
        and now = now and s = ?s1 and h = h and sz = sz and n = n]
      assms(5,9,10,11,12,13) miss pmiss get by simp
  then show ?thesis
    using POST_past_gates [where net = net, OF valid assms(6) _ assms(5) assms(1) assms(7)] assms(4)
    by (cases "handleMiss net now req url ?s1") simp
qed

text \<open>
  Claim C7, as the code has it. A fast request without an unexpired token for its session
  and resource key is rejected, and nothing but the address counter changes: no request is
  sent, no cache entry written, no record created. The rejection is the unlock-required
  error (status 403) when the URL is valid and the address counter admits the request; a
  request with an invalid URL is rejected with status 400 and one over the address limit
  with status 429, since those tests come first. After a grant with \<open>watchedMs = 6000\<close> for
  the key, within the hour, the token is there, the same request is not answered with
  status 403, and the fetch succeeds: for a request outside history mode that the address
  counter admits, with nothing cached for the URL and a network that answers the size
  probe, the handler returns the bytes of the whole resource when the size is at most
  \<^verbatim>\<open>MAX_SIZE\<close> and the network answers the \<^verbatim>\<open>GET\<close>, and the bytes of part \<open>n\<close> when
  the size is above \<^verbatim>\<open>MAX_SIZE\<close>, part \<open>n\<close> is asked for and the network answers its
  range request.
\<close>

theorem fast_path_needs_unlock:
  "(req_downloadSpeed req = ''fast'' \<and> \<not> unlockedFor s now req \<longrightarrow>
      snd (POST net now req s) = s\<lparr>rate_limit := rate_limit (snd (POST net now req s))\<rparr>
      \<and> fst (POST net now req s)
          = (if \<not> validUrl req then invalidUrl
             else if \<not> addressAdmitted now req s then tooManyRequests
             else unlockRequired))
   \<and> status invalidUrl = 400 \<and> status tooManyRequests = 429 \<and> status unlockRequired = 403
   \<and> (req_url req = Some url \<and> granted \<le> now \<and> now < granted + 3600000 \<longrightarrow>
        (let tokens = trackAdWatch (adUnlock s) granted (req_sessionId req)
                        (partUrl url (req_partSize req)) 6000;
             unlocked = s\<lparr>adUnlock := snd tokens\<rparr>
         in fst tokens
          \<and> unlockedFor unlocked now req
          \<and> status (fst (POST net now req unlocked)) \<noteq> 403
          \<and> (url \<noteq> [] \<and> req_downloadSpeed req = ''fast'' \<and> req_mode req \<noteq> ''history''
              \<and> addressAdmitted now req s
              \<and> redis_get now (file_info_cache s) url = None
              \<and> redis_get now (file_size_cache s) url = None
              \<and> (\<forall>k. net k (Head url) = Inr h) \<longrightarrow>
                ((\<forall>sz. content_length h = Some sz \<longrightarrow> sz \<le> MAX_SIZE)
                  \<and> (\<forall>k. net k (Get url False) = Inr r) \<longrightarrow>
                    fst (POST net now req unlocked)
                      = FileResponse (data r) ''downloaded_file.[object Object]'')
              \<and> (\<forall>sz n. content_length h = Some sz \<and> MAX_SIZE < sz
                     \<and> req_partSize req = Some n \<and> n \<noteq> 0
                     \<and> redis_get now (file_part_cache s) (partUrl url (Some n)) = None
                     \<and> (\<forall>k. net k (GetRange url ((n - 1) * MAX_PART_SIZE)
                                     ((n - 1) * MAX_PART_SIZE + MAX_SIZE - 1) False) = Inr r) \<longrightarrow>
                    fst (POST net now req unlocked)
                      = FileResponse (data r) (''part_'' @ showInt n @ ''.zip'')))))"
proof (intro conjI impI)
  assume a: "req_downloadSpeed req = ''fast'' \<and> \<not> unlockedFor s now req"
  have both: "snd (POST net now req s) = s\<lparr>rate_limit := rate_limit (snd (POST net now req s))\<rparr>
      \<and> fst (POST net now req s)
          = (if \<not> validUrl req then invalidUrl
             else if \<not> addressAdmitted now req s then tooManyRequests
             else unlockRequired)"
  proof (cases "validUrl req")
    case False
    then show ?thesis by (simp add: POST_invalid)
  next
    case valid: True
    show ?thesis
    proof (cases "addressAdmitted now req s")
      case False
      with valid show ?thesis by (simp add: POST_address_denied)
    next
      case True
      with valid a show ?thesis by (simp add: POST_fast_locked)
    qed
  qed
  from both show "snd (POST net now req s) = s\<lparr>rate_limit := rate_limit (snd (POST net now req s))\<rparr>"
    by simp
  from both show "fst (POST net now req s)
          = (if \<not> validUrl req then invalidUrl
             else if \<not> addressAdmitted now req s then tooManyRequests
             else unlockRequired)"
    by simp
next
  show "status invalidUrl = 400" "status tooManyRequests = 429" "status unlockRequired = 403"
    by (simp_all add: invalidUrl_def tooManyRequests_def unlockRequired_def)
next
  assume a: "req_url req = Some url \<and> granted \<le> now \<and> now < granted + 3600000"
  let ?tokens = "trackAdWatch (adUnlock s) granted (req_sessionId req)
                        (partUrl url (req_partSize req)) 6000"
  let ?unlocked = "s\<lparr>adUnlock := snd ?tokens\<rparr>"
  have g: "fst ?tokens" and u: "unlockedFor ?unlocked now req"
    using a grant_unlocks [of req url granted now s] by simp_all
  have n403: "status (fst (POST net now req ?unlocked)) \<noteq> 403"
    using POST_403_only_locked [of net now req ?unlocked] u by blast
  have adm: "addressAdmitted now req ?unlocked = addressAdmitted now req s"
    by (simp add: addressAdmitted_def)
  have whole: "fst (POST net now req ?unlocked)
                 = FileResponse (data r) ''downloaded_file.[object Object]''"
    if "url \<noteq> [] \<and> req_downloadSpeed req = ''fast'' \<and> req_mode req \<noteq> ''history''
          \<and> addressAdmitted now req s
          \<and> redis_get now (file_info_cache s) url = None
          \<and> redis_get now (file_size_cache s) url = None
          \<and> (\<forall>k. net k (Head url) = Inr h)"
       "(\<forall>sz. content_length h = Some sz \<longrightarrow> sz \<le> MAX_SIZE)
          \<and> (\<forall>k. net k (Get url False) = Inr r)"
    using POST_unlocked_whole [where net = net and req = req and url = url and s = ?unlocked
        and now = now and h = h and r = r] that a u adm by simp
  have part: "fst (POST net now req ?unlocked)
                 = FileResponse (data r) (''part_'' @ showInt n @ ''.zip'')"
    if "url \<noteq> [] \<and> req_downloadSpeed req = ''fast'' \<and> req_mode req \<noteq> ''history''
          \<and> addressAdmitted now req s
          \<and> redis_get now (file_info_cache s) url = None
          \<and> redis_get now (file_size_cache s) url = None
          \<and> (\<forall>k. net k (Head url) = Inr h)"
       "content_length h = Some sz \<and> MAX_SIZE < sz
          \<and> req_partSize req = Some n \<and> n \<noteq> 0
          \<and> redis_get now (file_part_cache s) (partUrl url (Some n)) = None
          \<and> (\<forall>k. net k (GetRange url ((n - 1) * MAX_PART_SIZE)
                          ((n - 1) * MAX_PART_SIZE + MAX_SIZE - 1) False) = Inr r)"
    for sz n
    using POST_unlocked_part [where net = net and req = req and url = url and s = ?unlocked
        and now = now and h = h and r = r and sz = sz and n = n] that a u adm by simp
  show "let tokens = ?tokens; unlocked = s\<lparr>adUnlock := snd tokens\<rparr>
         in fst tokens
          \<and> unlockedFor unlocked now req
          \<and> status (fst (POST net now req unlocked)) \<noteq> 403
          \<and> (url \<noteq> [] \<and> req_downloadSpeed req = ''fast'' \<and> req_mode req \<noteq> ''history''
              \<and> addressAdmitted now req s
              \<and> redis_get now (file_info_cache s) url = None
              \<and> redis_get now (file_size_cache s) url = None
              \<and> (\<forall>k. net k (Head url) = Inr h) \<longrightarrow>
                ((\<forall>sz. content_length h = Some sz \<longrightarrow> sz \<le> MAX_SIZE)
                  \<and> (\<forall>k. net k (Get url False) = Inr r) \<longrightarrow>
                    fst (POST net now req unlocked)
                      = FileResponse (data r) ''downloaded_file.[object Object]'')
              \<and> (\<forall>sz n. content_length h = Some sz \<and> MAX_SIZE < sz
                     \<and> req_partSize req = Some n \<and> n \<noteq> 0
                     \<and> redis_get now (file_part_cache s) (partUrl url (Some n)) = None
                     \<and> (\<forall>k. net k (GetRange url ((n - 1) * MAX_PART_SIZE)
                                     ((n - 1) * MAX_PART_SIZE + MAX_SIZE - 1) False) = Inr r) \<longrightarrow>
                    fst (POST net now req unlocked)
                      = FileResponse (data r) (''part_'' @ showInt n @ ''.zip'')))"
    unfolding Let_def
    using g u n403 whole part by blast
qed

text \<open>
  The theorem at a fast request to a fresh server and at the same request after a grant at
  time 500, for a small resource and for the first part of an oversized one: the first
  request is rejected before any request is sent, the second returns the bytes.
\<close>

theorem fast_path_needs_unlock_witness:
  "\<not> unlockedFor emptyState 1000 (demoRequest ''normal'' ''fast'' None)
   \<and> fst (POST (fileServer (Some ''video/mp4'') 3 [1, 2, 3]) 1000
            (demoRequest ''normal'' ''fast'' None) emptyState) = unlockRequired
   \<and> netlog (snd (POST (fileServer (Some ''video/mp4'') 3 [1, 2, 3]) 1000
            (demoRequest ''normal'' ''fast'' None) emptyState)) = []
   \<and> unlockedFor unlockedState 1000 (demoRequest ''normal'' ''fast'' None)
   \<and> fst (POST (fileServer (Some ''video/mp4'') 3 [1, 2, 3]) 1000
            (demoRequest ''normal'' ''fast'' None) unlockedState)
       = FileResponse [1, 2, 3] ''downloaded_file.[object Object]''
   \<and> fst (POST (fileServer (Some ''video/mp4'') 12000000000 [1, 2, 3]) 1000
            (demoRequest ''normal'' ''fast'' (Some 1)) emptyState) = unlockRequired
   \<and> fst (POST (fileServer (Some ''video/mp4'') 12000000000 [1, 2, 3]) 1000
            (demoRequest ''normal'' ''fast'' (Some 1))
            (emptyState\<lparr>adUnlock :=
               snd (trackAdWatch Map.empty 500 ''s1'' ''http://h/f#part1'' 6000)\<rparr>))
       = FileResponse [1, 2, 3] ''part_1.zip''"
  using fast_path_needs_unlock [where req = "demoRequest ''normal'' ''fast'' None"
      and s = emptyState and now = 1000 and net = "fileServer (Some ''video/mp4'') 3 [1, 2, 3]"
      and url = "''http://h/f''" and granted = 500
      and h = "\<lparr>content_type = Some ''video/mp4'', content_length = Some 3, data = []\<rparr>"
      and r = "\<lparr>content_type = Some ''video/mp4'', content_length = Some 3, data = [1, 2, 3]\<rparr>"]
    fast_path_needs_unlock [where req = "demoRequest ''normal'' ''fast'' (Some 1)"
      and s = emptyState and now = 1000
      and net = "fileServer (Some ''video/mp4'') 12000000000 [1, 2, 3]"
      and url = "''http://h/f''" and granted = 500
      and h = "\<lparr>content_type = Some ''video/mp4'', content_length = Some 12000000000, data = []\<rparr>"
      and r = "\<lparr>content_type = Some ''video/mp4'', content_length = Some 5368709120,
                data = [1, 2, 3]\<rparr>"]
  by (simp add: model_defs fileServer_def emptyState_def demoRequest_def unlockedState_def
      validUrl_def addressAdmitted_def unlockedFor_def unlockRequired_def invalidUrl_def
      tooManyRequests_def trackAdWatch_def MIN_WATCH_TIME_def UNLOCK_DURATION_def showNat.simps)

text \<open>
  Claim C7 as stated fails for a fast request without a token from an address whose counter
  stands at 100: it is rejected with status 429, not 403.
\<close>

theorem fast_locked_rate_limited_counterexample:
  "req_downloadSpeed (demoRequest ''normal'' ''fast'' None) = ''fast''
   \<and> \<not> unlockedFor busyState 1000 (demoRequest ''normal'' ''fast'' None)
   \<and> fst (POST noNetwork 1000 (demoRequest ''normal'' ''fast'' None) busyState)
       = ErrorResponse 429 ''Too many requests. Please try again later.'' None
   \<and> status (fst (POST noNetwork 1000 (demoRequest ''normal'' ''fast'' None) busyState)) \<noteq> 403"
  by (simp add: model_defs noNetwork_def emptyState_def demoRequest_def busyState_def
      unlockedFor_def)

section \<open>Records and fetched bytes\<close>

text \<open>
  Whatever the request, the network and the state: a payload is answered only outside
  history mode, with the bytes produced and exactly one row appended to
  \<^verbatim>\<open>UserDownloads\<close>; every other answer leaves both record tables as they were. In
  history mode the handler never answers with a payload and never writes a row.
\<close>

lemma sameRecords_refl [simp]: "sameRecords s s"
  by (simp add: sameRecords_def)

lemma sameRecords_trans: "sameRecords s s1 \<Longrightarrow> sameRecords s1 s2 \<Longrightarrow> sameRecords s s2"
  by (simp add: sameRecords_def)

lemma detectContentType_records: "sameRecords s (snd (detectContentType net url s))"
  by (simp add: detectContentType_def http_def sameRecords_def Let_def split: sum.split prod.split)

lemma getFileSize_records: "sameRecords s (snd (getFileSize net now url s))"
  by (simp add: getFileSize_def http_def sameRecords_def Let_def split: sum.split option.split)

lemma downloadPart_records: "sameRecords s (snd (downloadPart net now part sid slow s))"
  by (simp add: downloadPart_def http_def sameRecords_def Let_def split: sum.split option.split)

lemma served_shift:
  assumes "sameRecords s s1" "served net req now s1 res"
  shows "served net req now s res"
  using assms
  by (auto simp: served_def sameRecords_def recordedDownload_def
      split: prod.splits sum.splits response.splits)

lemma wholeFile_served: "served net req now s (wholeFile net now req url ct s)"
  by (auto simp: served_def wholeFile_def http_def sameRecords_def recordedDownload_def
      produced_def answered_def recordHistory_throws downloadLimiter_recordDownload_def
      Let_def split: sum.splits)

lemma downloadPart_produced:
  assumes "downloadPart net now part sid slow s = (Inr body, s')"
  shows "produced net now s' body"
proof (cases "redis_get now (file_part_cache s) (downloadKey part)")
  case (Some cachedPart)
  with assms have "s' = s" "body = cachedPart" by (simp_all add: downloadPart_def)
  with Some have "redis_get now (file_part_cache s') (downloadKey part) = Some body" by simp
  then show ?thesis unfolding produced_def by blast
next
  case None
  let ?call = "GetRange (fp_url part) ((fp_partNumber part - 1) * MAX_PART_SIZE)
                 ((fp_partNumber part - 1) * MAX_PART_SIZE + fp_size part - 1) slow"
  from assms None obtain response where
    net: "net (length (netlog s)) ?call = Inr response" and
    body: "body = data response" and
    log: "netlog s' = netlog s @ [?call]"
    by (auto simp: downloadPart_def http_def Let_def split: sum.splits)
  have "answered net s' body"
    unfolding answered_def using net body log by simp
  then show ?thesis by (simp add: produced_def)
qed

lemma partBranch_served: "served net req now s (partBranch net now req url ct sz n s)"
proof (cases "downloadPart net now (requestedPart url n sz) (req_sessionId req)
                (req_downloadSpeed req = ''slow'') s")
  case (Pair r s1)
  have rec: "sameRecords s s1"
    using downloadPart_records [of s net now "requestedPart url n sz" "req_sessionId req"
        "req_downloadSpeed req = ''slow''"] Pair by simp
  show ?thesis
  proof (cases r)
    case (Inl e)
    with Pair rec show ?thesis by (simp add: partBranch_def served_def)
  next
    case (Inr body)
    with Pair have "produced net now s1 body" by (auto dest: downloadPart_produced)
    then have "produced net now
        (s1\<lparr>userDownloads :=
               downloadLimiter_recordDownload (userDownloads s1) now (req_sessionId req) url
                 ''part'' (Some n)\<rparr>) body"
      by (simp add: produced_def answered_def)
    with Pair Inr rec show ?thesis
      by (simp add: partBranch_def served_def Let_def sameRecords_def recordedDownload_def
          recordHistory_throws downloadLimiter_recordDownload_def)
  qed
qed

lemma largeFileBranch_served:
  "served net req now s (case largeFileBranch now url sz s of (r, s1) \<Rightarrow> (Inr r, s1))"
  by (simp add: largeFileBranch_def served_def sameRecords_def Let_def)

lemma serveBySize_served: "served net req now s (serveBySize net now req url ct fileSize s)"
  by (simp add: serveBySize_def wholeFile_served partBranch_served largeFileBranch_served
      split: option.split)

lemma handleMiss_served: "served net req now s (handleMiss net now req url s)"
proof (cases "detectContentType net url s")
  case (Pair ct s1)
  have r1: "sameRecords s s1" using detectContentType_records [of s net url] Pair by simp
  show ?thesis
  proof (cases "getFileSize net now url s1")
    case inner: (Pair r s2)
    have r2: "sameRecords s1 s2" using getFileSize_records [of s1 net now url] inner by simp
    have r12: "sameRecords s s2" by (rule sameRecords_trans [OF r1 r2])
    show ?thesis
    proof (cases r)
      case (Inl e)
      with Pair inner r12 show ?thesis
        by (simp add: handleMiss_def strictEqualsString_def served_def)
    next
      case (Inr fileSize)
      have "served net req now s (serveBySize net now req url ct fileSize s2)"
        by (rule served_shift [OF r12 serveBySize_served])
      with Pair inner Inr show ?thesis
        by (simp add: handleMiss_def strictEqualsString_def)
    qed
  qed
qed

lemma POST_records:
  "case POST net now req s of
     (FileResponse body name, s') \<Rightarrow> recordedDownload req now s s' \<and> produced net now s' body
   | (other, s') \<Rightarrow> sameRecords s s'"
proof (cases "req_url req")
  case None
  then show ?thesis by (simp add: POST_def)
next
  case (Some url)
  show ?thesis
  proof (cases "url = []")
    case True
    with Some show ?thesis by (simp add: POST_def)
  next
    case False
    obtain r c where car: "checkAddressRate now (req_forwardedFor req) (rate_limit s) = (r, c)"
      by (cases "checkAddressRate now (req_forwardedFor req) (rate_limit s)")
    let ?s1 = "s\<lparr>rate_limit := c\<rparr>"
    have s1: "sameRecords s ?s1" by (simp add: sameRecords_def)
    have hm: "served net req now s (handleMiss net now req url ?s1)"
      by (rule served_shift [OF s1 handleMiss_served])
    from checkAddressRate_cases [OF car] show ?thesis
    proof
      assume "r = Some tooManyRequests"
      with Some False car show ?thesis
        by (simp add: POST_def checkDownloadLimit_def tooManyRequests_def sameRecords_def)
    next
      assume rn: "r = None"
      show ?thesis
        using Some False car rn hm
        by (auto simp: POST_def checkDownloadLimit_def checkFastUnlock_def checkHistoryLimit_def
            served_def sameRecords_def Let_def
            split: option.splits sum.splits prod.splits response.splits)
    qed
  qed
qed

lemma history_mode_never_records:
  assumes "req_mode req = ''history''"
  shows "sameRecords s (snd (POST net now req s))"
    and "fst (POST net now req s) \<noteq> FileResponse body name"
  using POST_records [where net = net and now = now and req = req and s = s] assms
  by (cases "POST net now req s"; auto simp: recordedDownload_def split: response.splits)+

text \<open>
  Claim C8, evaluated. A history-mode request for a resource of three bytes to a fresh
  server: the handler sends the \<^verbatim>\<open>GET\<close>, the network answers it with the bytes, then
  \<^verbatim>\<open>rateLimiter.recordDownload\<close> is called with the classifier's object as \<^verbatim>\<open>type\<close>
  and throws, and the handler answers with status 500; no row is in either table and no
  descriptor is cached. The same happens for the first part of an oversized resource. The
  same two requests outside history mode are answered with the bytes and leave exactly one
  row in \<^verbatim>\<open>UserDownloads\<close>; when the network fails, the answer is status 500 and no
  row is written.
\<close>

theorem history_download_fetched_not_recorded:
  "fst (POST (fileServer (Some ''video/mp4'') 3 [1, 2, 3]) 1000
          (demoRequest ''history'' ''slow'' None) emptyState)
     = ErrorResponse 500 ''Download failed'' None
   \<and> netlog (snd (POST (fileServer (Some ''video/mp4'') 3 [1, 2, 3]) 1000
          (demoRequest ''history'' ''slow'' None) emptyState))
       = [Head ''http://h/f'', Head ''http://h/f'', Get ''http://h/f'' True]
   \<and> fileServer (Some ''video/mp4'') 3 [1, 2, 3] 2 (Get ''http://h/f'' True)
       = Inr \<lparr>content_type = Some ''video/mp4'', content_length = Some 3, data = [1, 2, 3]\<rparr>
   \<and> downloadHistory (snd (POST (fileServer (Some ''video/mp4'') 3 [1, 2, 3]) 1000
          (demoRequest ''history'' ''slow'' None) emptyState)) = []
   \<and> userDownloads (snd (POST (fileServer (Some ''video/mp4'') 3 [1, 2, 3]) 1000
          (demoRequest ''history'' ''slow'' None) emptyState)) = []
   \<and> file_info_cache (snd (POST (fileServer (Some ''video/mp4'') 3 [1, 2, 3]) 1000
          (demoRequest ''history'' ''slow'' None) emptyState)) ''http://h/f'' = None
   \<and> fst (POST (fileServer (Some ''video/mp4'') 12000000000 [1, 2, 3]) 1000
          (demoRequest ''history'' ''slow'' (Some 1)) emptyState)
       = ErrorResponse 500 ''Download failed'' None
   \<and> netlog (snd (POST (fileServer (Some ''video/mp4'') 12000000000 [1, 2, 3]) 1000
          (demoRequest ''history'' ''slow'' (Some 1)) emptyState))
       = [Head ''http://h/f'', Head ''http://h/f'', GetRange ''http://h/f'' 0 5368709119 True]
   \<and> downloadHistory (snd (POST (fileServer (Some ''video/mp4'') 12000000000 [1, 2, 3]) 1000
          (demoRequest ''history'' ''slow'' (Some 1)) emptyState)) = []
   \<and> userDownloads (snd (POST (fileServer (Some ''video/mp4'') 12000000000 [1, 2, 3]) 1000
          (demoRequest ''history'' ''slow'' (Some 1)) emptyState)) = []
   \<and> fst (POST (fileServer (Some ''video/mp4'') 3 [1, 2, 3]) 1000
          (demoRequest ''normal'' ''slow'' None) emptyState)
       = FileResponse [1, 2, 3] ''downloaded_file.[object Object]''
   \<and> userDownloads (snd (POST (fileServer (Some ''video/mp4'') 3 [1, 2, 3]) 1000
          (demoRequest ''normal'' ''slow'' None) emptyState))
       = [\<lparr>ud_userId = ''s1'', ud_url = ''http://h/f'', ud_createdAt = 1000, ud_type = ''file'',
           ud_partNumber = None\<rparr>]
   \<and> fst (POST (fileServer (Some ''video/mp4'') 12000000000 [1, 2, 3]) 1000
          (demoRequest ''normal'' ''slow'' (Some 1)) emptyState)
       = FileResponse [1, 2, 3] ''part_1.zip''
   \<and> userDownloads (snd (POST (fileServer (Some ''video/mp4'') 12000000000 [1, 2, 3]) 1000
          (demoRequest ''normal'' ''slow'' (Some 1)) emptyState))
       = [\<lparr>ud_userId = ''s1'', ud_url = ''http://h/f'', ud_createdAt = 1000, ud_type = ''part'',
           ud_partNumber = Some 1\<rparr>]
   \<and> fst (POST noNetwork 1000 (demoRequest ''normal'' ''slow'' None) emptyState)
       = ErrorResponse 500 ''Download failed'' None
   \<and> userDownloads (snd (POST noNetwork 1000 (demoRequest ''normal'' ''slow'' None) emptyState))
       = []"
  by (simp add: model_defs fileServer_def noNetwork_def emptyState_def demoRequest_def
      showNat.simps)

section \<open>The size threshold\<close>

lemma detect_isLargeFile:
  "ci_isLargeFile (fst (detectContentType net url s))
     = isLargeFile_of (ci_size (fst (detectContentType net url s)))"
  by (simp add: detectContentType_def detect_fallback_def isLargeFile_of_def Let_def
      split: sum.split prod.split)

lemma handleMiss_unfold:
  "handleMiss net now req url s =
     (case getFileSize net now url (snd (detectContentType net url s)) of
        (Inl e, s2) \<Rightarrow> (Inl (AxiosError e), s2)
      | (Inr fileSize, s2) \<Rightarrow>
          serveBySize net now req url (fst (detectContentType net url s)) fileSize s2)"
proof -
  obtain ct s1 where d: "detectContentType net url s = (ct, s1)"
    by (cases "detectContentType net url s")
  show ?thesis
    unfolding handleMiss_def d fst_conv snd_conv by (simp add: strictEqualsString_def)
qed

lemma wholeFile_netlog:
  "netlog (snd (wholeFile net now req url ct s))
     = netlog s @ [Get url (req_downloadSpeed req = ''slow'')]"
  by (simp add: wholeFile_def http_def recordHistory_throws Let_def split: sum.split)

lemma oversized_netlog:
  assumes "MAX_SIZE < sz"
  shows "netlog (snd (serveBySize net now req url ct (Some sz) s)) = netlog s
       \<or> (\<exists>n. req_partSize req = Some n \<and> n \<noteq> 0 \<and>
             netlog (snd (serveBySize net now req url ct (Some sz) s))
               = netlog s @ [GetRange url ((n - 1) * MAX_PART_SIZE)
                               ((n - 1) * MAX_PART_SIZE + MAX_SIZE - 1)
                               (req_downloadSpeed req = ''slow'')])"
  using assms
  by (auto simp: serveBySize_def largeFileBranch_def partBranch_def downloadPart_def
      requestedPart_def http_def recordHistory_throws Let_def split: option.splits sum.splits)

text \<open>
  Claim C10. When the size lookup yields exactly \<open>5 * 1024 * 1024 * 1024\<close>, the handler
  takes the path of the whole resource: it sends one further request, the \<^verbatim>\<open>GET\<close> of the
  URL without a range. The same holds for every size up to that threshold. Only for a size
  strictly above it the handler takes the oversized branch, which sends no further request
  or one range request. The classifier's flag \<^verbatim>\<open>isLargeFile\<close> is true exactly for
  classified sizes of at least that threshold, so it is true at the threshold itself.
\<close>

theorem threshold_size_takes_small_path:
  "(let classified = detectContentType net url s;
        sized = getFileSize net now url (snd classified)
    in (fst sized = Inr (Some (5 * 1024 * 1024 * 1024)) \<longrightarrow>
          handleMiss net now req url s = wholeFile net now req url (fst classified) (snd sized)
          \<and> netlog (snd (handleMiss net now req url s))
              = netlog (snd sized) @ [Get url (req_downloadSpeed req = ''slow'')])
     \<and> (\<forall>sz. fst sized = Inr (Some sz) \<and> sz \<le> 5 * 1024 * 1024 * 1024 \<longrightarrow>
          handleMiss net now req url s = wholeFile net now req url (fst classified) (snd sized))
     \<and> (\<forall>sz. fst sized = Inr (Some sz) \<and> 5 * 1024 * 1024 * 1024 < sz \<longrightarrow>
          handleMiss net now req url s
            = serveBySize net now req url (fst classified) (Some sz) (snd sized)
          \<and> (netlog (snd (handleMiss net now req url s)) = netlog (snd sized)
             \<or> (\<exists>n. req_partSize req = Some n \<and> n \<noteq> 0 \<and>
                   netlog (snd (handleMiss net now req url s))
                     = netlog (snd sized) @ [GetRange url ((n - 1) * MAX_PART_SIZE)
                                               ((n - 1) * MAX_PART_SIZE + MAX_SIZE - 1)
                                               (req_downloadSpeed req = ''slow'')])))
     \<and> ci_isLargeFile (fst classified) = (5 * 1024 * 1024 * 1024 \<le> ci_size (fst classified)))
   \<and> isLargeFile_of (5 * 1024 * 1024 * 1024)
   \<and> MAX_SIZE = 5 * 1024 * 1024 * 1024"
proof -
  obtain r s2 where sized: "getFileSize net now url (snd (detectContentType net url s)) = (r, s2)"
    by (cases "getFileSize net now url (snd (detectContentType net url s))")
  have small: "handleMiss net now req url s
                 = wholeFile net now req url (fst (detectContentType net url s)) s2"
    if "r = Inr (Some sz)" "sz \<le> 5 * 1024 * 1024 * 1024" for sz
    using that sized by (simp add: handleMiss_unfold serveBySize_def MAX_SIZE_def)
  have large: "handleMiss net now req url s
                 = serveBySize net now req url (fst (detectContentType net url s)) (Some sz) s2"
    if "r = Inr (Some sz)" for sz
    using that sized by (simp add: handleMiss_unfold)
  have flag: "ci_isLargeFile (fst (detectContentType net url s))
                = (5 * 1024 * 1024 * 1024 \<le> ci_size (fst (detectContentType net url s)))"
    using detect_isLargeFile [of net url s] by (simp add: isLargeFile_of_def)
  show ?thesis
    unfolding Let_def sized fst_conv snd_conv
  proof (intro conjI impI allI)
    assume "r = Inr (Some (5 * 1024 * 1024 * 1024))"
    then show eq: "handleMiss net now req url s
                 = wholeFile net now req url (fst (detectContentType net url s)) s2"
      using small [of "5 * 1024 * 1024 * 1024"] by simp
    show "netlog (snd (handleMiss net now req url s))
              = netlog s2 @ [Get url (req_downloadSpeed req = ''slow'')]"
      unfolding eq by (rule wholeFile_netlog)
  next
    fix sz assume "r = Inr (Some sz) \<and> sz \<le> 5 * 1024 * 1024 * 1024"
    then show "handleMiss net now req url s
                 = wholeFile net now req url (fst (detectContentType net url s)) s2"
      using small [of sz] by simp
  next
    fix sz assume a: "r = Inr (Some sz) \<and> 5 * 1024 * 1024 * 1024 < sz"
    then show eq: "handleMiss net now req url s
                 = serveBySize net now req url (fst (detectContentType net url s)) (Some sz) s2"
      using large [of sz] by simp
    from a have "MAX_SIZE < sz" by (simp add: MAX_SIZE_def)
    then show "netlog (snd (handleMiss net now req url s)) = netlog s2
             \<or> (\<exists>n. req_partSize req = Some n \<and> n \<noteq> 0 \<and>
                   netlog (snd (handleMiss net now req url s))
                     = netlog s2 @ [GetRange url ((n - 1) * MAX_PART_SIZE)
                                               ((n - 1) * MAX_PART_SIZE + MAX_SIZE - 1)
                                               (req_downloadSpeed req = ''slow'')])"
      unfolding eq by (rule oversized_netlog)
  next
    show "ci_isLargeFile (fst (detectContentType net url s))
            = (5 * 1024 * 1024 * 1024 \<le> ci_size (fst (detectContentType net url s)))"
      by (rule flag)
  next
    show "isLargeFile_of (5 * 1024 * 1024 * 1024)" by (simp add: isLargeFile_of_def)
    show "MAX_SIZE = 5 * 1024 * 1024 * 1024" by (simp add: MAX_SIZE_def)
  qed
qed

text \<open>
  The theorem at a resource of exactly 5368709120 bytes, and at one of 5368709121 bytes.
\<close>

theorem threshold_size_takes_small_path_witness:
  "fst (getFileSize (fileServer (Some ''video/mp4'') 5368709120 [1, 2, 3]) 1000 ''http://h/f''
          (snd (detectContentType (fileServer (Some ''video/mp4'') 5368709120 [1, 2, 3])
                  ''http://h/f'' emptyState)))
     = Inr (Some 5368709120)
   \<and> ci_isLargeFile (fst (detectContentType (fileServer (Some ''video/mp4'') 5368709120 [1, 2, 3])
                             ''http://h/f'' emptyState))
   \<and> netlog (snd (handleMiss (fileServer (Some ''video/mp4'') 5368709120 [1, 2, 3]) 1000
                     (demoRequest ''normal'' ''slow'' (Some 1)) ''http://h/f'' emptyState))
       = [Head ''http://h/f'', Head ''http://h/f'', Get ''http://h/f'' True]
   \<and> fst (POST (fileServer (Some ''video/mp4'') 5368709120 [1, 2, 3]) 1000
            (demoRequest ''normal'' ''slow'' (Some 1)) emptyState)
       = FileResponse [1, 2, 3] ''downloaded_file.[object Object]''
   \<and> netlog (snd (handleMiss (fileServer (Some ''video/mp4'') 5368709121 [1, 2, 3]) 1000
                     (demoRequest ''normal'' ''slow'' (Some 1)) ''http://h/f'' emptyState))
       = [Head ''http://h/f'', Head ''http://h/f'', GetRange ''http://h/f'' 0 5368709119 True]"
  using threshold_size_takes_small_path
      [where net = "fileServer (Some ''video/mp4'') 5368709120 [1, 2, 3]" and now = 1000
        and req = "demoRequest ''normal'' ''slow'' (Some 1)" and url = "''http://h/f''"
        and s = emptyState]
    threshold_size_takes_small_path
      [where net = "fileServer (Some ''video/mp4'') 5368709121 [1, 2, 3]" and now = 1000
        and req = "demoRequest ''normal'' ''slow'' (Some 1)" and url = "''http://h/f''"
        and s = emptyState]
  by (simp add: model_defs fileServer_def emptyState_def demoRequest_def showNat.simps)

section \<open>The range requested for a part\<close>

text \<open>
  Claim C3, evaluated for the third and last part of a resource of 12000000000 bytes. The
  handler passes \<^verbatim>\<open>size: MAX_SIZE\<close> for every part, so \<^verbatim>\<open>downloadPart\<close> asks for the
  bytes 10737418240 to 16106127359, while the range of the planner's third part ends at
  11999999999 and its size is 1262581760.
\<close>

theorem last_part_range_overshoots:
  "netlog (snd (POST (fileServer (Some ''video/mp4'') 12000000000 []) 1000
                  (demoRequest ''normal'' ''slow'' (Some 3)) emptyState))
     = [Head ''http://h/f'', Head ''http://h/f'',
        GetRange ''http://h/f'' 10737418240 16106127359 True]
   \<and> fp_size (requestedPart ''http://h/f'' 3 12000000000) = 5368709120
   \<and> fp_size (splitFile 12000000000 ! 2) = 1262581760
   \<and> rangeStart MAX_PART_SIZE (splitFile 12000000000 ! 2) = 10737418240
   \<and> rangeEnd MAX_PART_SIZE (splitFile 12000000000 ! 2) = 11999999999
   \<and> (11999999999 :: int) < 16106127359"
  by (simp add: model_defs fileServer_def emptyState_def demoRequest_def showNat.simps
      splitFile_def splitFileWith_closed upto_rec1 mkPart_def rangeStart_def rangeEnd_def)

section \<open>Concurrent calls for one key\<close>

text \<open>
  A call that starts while the key is in \<^verbatim>\<open>downloadQueue\<close> sends nothing and gets the
  outcome of the pending request.
\<close>

lemma dedup_when_queued:
  assumes "tasks f tid = None" "downloadQueue f (downloadKey part) = Some p" "settled f p = None"
  shows "requests (step (Call tid part slow) f) = requests f"
    and "map_option t_state (tasks (step (Call tid part slow) f) tid) = Some (AwaitQueued p)"
    and "p < length (requests f) \<Longrightarrow>
         map_option t_state (tasks (step (NetReply p out) (step (Call tid part slow) f)) tid)
           = Some (Finished out)"
  using assms by (simp_all add: stepCall_def stepNetReply_def resume_def Let_def)

text \<open>
  A single call, run to completion, sends the range request of the sequential model and
  leaves both maps empty.
\<close>

lemma single_call_run:
  "requests (run [Call 0 part slow, CacheReply 0, SlotCheck 0] emptyFetcher)
     = [(downloadKey part,
         GetRange (fp_url part) ((fp_partNumber part - 1) * MAX_PART_SIZE)
           ((fp_partNumber part - 1) * MAX_PART_SIZE + fp_size part - 1) slow)]"
  and "downloadQueue (run [Call 0 part slow, CacheReply 0, SlotCheck 0, NetReply 0 out] emptyFetcher)
     = Map.empty"
  and "activeDownloads (run [Call 0 part slow, CacheReply 0, SlotCheck 0, NetReply 0 out] emptyFetcher)
     = {}"
  and "map_option t_state
         (tasks (run [Call 0 part slow, CacheReply 0, SlotCheck 0, NetReply 0 out] emptyFetcher) 0)
     = Some (Finished out)"
  by (simp_all add: stepCall_def stepCacheReply_def stepSlotCheck_def stepNetReply_def resume_def
      emptyFetcher_def MAX_CONCURRENT_DOWNLOADS_def Let_def)

text \<open>
  Claim C1, evaluated for two calls for the same part where the second starts before the
  first has stored its promise: both pass the in-progress test, both send the range request,
  two requests for the one key are outstanding at once, and when the first succeeds and the
  second fails the two callers get different outcomes.
\<close>

theorem concurrent_calls_send_two_requests:
  "map snd (requests (run racingCalls emptyFetcher))
     = [GetRange ''http://h/f'' 10737418240 16106127359 False,
        GetRange ''http://h/f'' 10737418240 16106127359 False]
   \<and> outstanding (run racingCalls emptyFetcher) (downloadKey thirdPart) = [0, 1]
   \<and> map_option t_state
        (tasks (run (racingCalls @ [NetReply 0 (Resolved [7]), NetReply 1 Rejected]) emptyFetcher) 0)
       = Some (Finished (Resolved [7]))
   \<and> map_option t_state
        (tasks (run (racingCalls @ [NetReply 0 (Resolved [7]), NetReply 1 Rejected]) emptyFetcher) 1)
       = Some (Finished Rejected)"
  by (simp add: racingCalls_def thirdPart_def fetcher_defs upt_rec)

end
